theory Spec2Isabelle
  imports Complex_Main
begin

section \<open>Orion Assistant: the intent-dispatch and session-state engine\<close>

text \<open>
  The development follows the component \<^verbatim>\<open>App\<close> with its handler \<^verbatim>\<open>handleRun\<close>,
  \<^verbatim>\<open>types.ts\<close>, \<^verbatim>\<open>services/gemini.ts\<close> and the component \<^verbatim>\<open>BotAvatar\<close>.

  Modelling conventions.
  \<^item> A JavaScript string is a \<^typ>\<open>string\<close> of ASCII characters; \<^verbatim>\<open>toLowerCase\<close> and
    \<^verbatim>\<open>trim\<close> are modelled on ASCII.
  \<^item> An optional string field (\<^verbatim>\<open>topic?: string\<close>) is a \<^typ>\<open>string option\<close>;
    \<^verbatim>\<open>undefined\<close> is \<^term>\<open>None\<close>. Both \<^verbatim>\<open>undefined\<close> and the empty string are falsy.
  \<^item> An \<^verbatim>\<open>await\<close>ed call has already settled: it either returned a value (\<^term>\<open>Inr\<close>)
    or threw (\<^term>\<open>Inl\<close>). A promise that never settles is outside the model.
  \<^item> React state is passed explicitly; a state setter returns the updated state.
  \<^item> A \<^verbatim>\<open>NoteStore\<close> is a plain object: its own properties are kept as an association
    list in the order \<^verbatim>\<open>Object.values\<close> enumerates them, and a read by key falls back
    to the members it inherits from \<^verbatim>\<open>Object.prototype\<close>.
\<close>

subsection \<open>JavaScript strings and truthiness\<close>

definition truthy :: "string option \<Rightarrow> bool" where
  "truthy x = (case x of None \<Rightarrow> False | Some s \<Rightarrow> s \<noteq> [])"

text \<open>\<^verbatim>\<open>x || d\<close> for an optional string \<open>x\<close> and a string \<open>d\<close>.\<close>

definition or_else :: "string option \<Rightarrow> string \<Rightarrow> string" where
  "or_else x d = (case x of None \<Rightarrow> d | Some s \<Rightarrow> if s = [] then d else s)"

definition lower_char :: "char \<Rightarrow> char" where
  "lower_char c =
     (case map_of (zip ''ABCDEFGHIJKLMNOPQRSTUVWXYZ'' ''abcdefghijklmnopqrstuvwxyz'') c of
        None \<Rightarrow> c
      | Some d \<Rightarrow> d)"

definition toLowerCase :: "string \<Rightarrow> string" where
  "toLowerCase s = map lower_char s"

definition js_space :: "char \<Rightarrow> bool" where
  "js_space c = ((of_char c :: nat) \<in> {9, 10, 11, 12, 13, 32})"

definition trim :: "string \<Rightarrow> string" where
  "trim s = rev (dropWhile js_space (rev (dropWhile js_space s)))"

text \<open>\<^verbatim>\<open>xs.join(sep)\<close>.\<close>

fun join :: "string \<Rightarrow> string list \<Rightarrow> string" where
  "join sep [] = []"
| "join sep [x] = x"
| "join sep (x # y # ys) = x @ sep @ join sep (y # ys)"

text \<open>\<^verbatim>\<open>n.toString()\<close> for a non-negative integer.\<close>

fun toString :: "nat \<Rightarrow> string" where
  "toString n =
     (if n < 10 then [char_of (48 + n)]
      else toString (n div 10) @ [char_of (48 + n mod 10)])"

declare toString.simps [simp del]

subsection \<open>Plain objects as ordered property lists\<close>

text \<open>
  The own string keys of an ordinary object are enumerated with the array indices first,
  in ascending numeric order, and then the other keys in the order of their creation.
  An array index is the canonical decimal form of an integer below \<open>2^32 - 1\<close>.
\<close>

definition is_digit :: "char \<Rightarrow> bool" where
  "is_digit c = (let n = (of_char c :: nat) in 48 \<le> n \<and> n \<le> 57)"

definition decimal_value :: "string \<Rightarrow> nat" where
  "decimal_value s = foldl (\<lambda>acc c. 10 * acc + ((of_char c :: nat) - 48)) 0 s"

definition array_index :: "string \<Rightarrow> nat option" where
  "array_index k =
     (if k = [] \<or> \<not> list_all is_digit k then None
      else if hd k = CHR ''0'' \<and> 1 < length k then None
      else if decimal_value k < 4294967295 then Some (decimal_value k) else None)"

primrec replace_prop :: "string \<Rightarrow> 'v \<Rightarrow> (string \<times> 'v) list \<Rightarrow> (string \<times> 'v) list" where
  "replace_prop k v [] = []"
| "replace_prop k v (p # ps) = (if fst p = k then (k, v) # ps else p # replace_prop k v ps)"

primrec insert_index :: "nat \<Rightarrow> string \<Rightarrow> 'v \<Rightarrow> (string \<times> 'v) list \<Rightarrow> (string \<times> 'v) list" where
  "insert_index n k v [] = [(k, v)]"
| "insert_index n k v (p # ps) =
     (case array_index (fst p) of
        Some m \<Rightarrow> if m < n then p # insert_index n k v ps else (k, v) # p # ps
      | None \<Rightarrow> (k, v) # p # ps)"

definition create_prop :: "string \<Rightarrow> 'v \<Rightarrow> (string \<times> 'v) list \<Rightarrow> (string \<times> 'v) list" where
  "create_prop k v ps =
     (case array_index k of Some n \<Rightarrow> insert_index n k v ps | None \<Rightarrow> ps @ [(k, v)])"

text \<open>\<^verbatim>\<open>{ ...ps, [k]: v }\<close>.\<close>

definition set_prop :: "string \<Rightarrow> 'v \<Rightarrow> (string \<times> 'v) list \<Rightarrow> (string \<times> 'v) list" where
  "set_prop k v ps =
     (if k \<in> set (map fst ps) then replace_prop k v ps else create_prop k v ps)"

text \<open>\<^verbatim>\<open>const next = { ...ps }; delete next[k]\<close>.\<close>

definition delete_prop :: "string \<Rightarrow> (string \<times> 'v) list \<Rightarrow> (string \<times> 'v) list" where
  "delete_prop k ps = filter (\<lambda>p. fst p \<noteq> k) ps"

text \<open>
  The objects here are made by \<^verbatim>\<open>{}\<close> and by object spread, so their prototype is
  \<^verbatim>\<open>Object.prototype\<close>, and a read \<^verbatim>\<open>ps[k]\<close> of a key that is not an own property finds
  the member of \<^verbatim>\<open>Object.prototype\<close> of that name, if there is one. These are its members;
  each is a function, but for \<^verbatim>\<open>__proto__\<close>, which reads as \<^verbatim>\<open>Object.prototype\<close> itself.
  None of them is falsy, and none is iterable.
\<close>

definition object_prototype_keys :: "string list" where
  "object_prototype_keys =
     [''constructor'', ''__defineGetter__'', ''__defineSetter__'', ''hasOwnProperty'',
      ''__lookupGetter__'', ''__lookupSetter__'', ''isPrototypeOf'', ''propertyIsEnumerable'',
      ''toString'', ''valueOf'', ''__proto__'', ''toLocaleString'']"

text \<open>The outcome of the read \<^verbatim>\<open>ps[k]\<close>.\<close>

datatype 'v Lookup = Undefined | Own 'v | Inherited string

definition get_prop :: "(string \<times> 'v) list \<Rightarrow> string \<Rightarrow> 'v Lookup" where
  "get_prop ps k =
     (case map_of ps k of
        Some v \<Rightarrow> Own v
      | None \<Rightarrow> if k \<in> set object_prototype_keys then Inherited k else Undefined)"

subsection \<open>The data model of \<^verbatim>\<open>types.ts\<close>\<close>

record PlannerInfo =
  info_topic :: "string option"
  content :: "string option"
  meetingAction :: "string option"
  language :: "string option"

text \<open>
  \<^verbatim>\<open>agent\<close> is declared with the union type \<^verbatim>\<open>AgentType\<close>, but the value comes from
  \<^verbatim>\<open>JSON.parse(text) as PlannerOutput\<close>: at run time it is whatever string the planner
  sent, so it is a string here.
\<close>

record PlannerOutput =
  agent :: string
  info :: PlannerInfo
  reasoning :: "string option"

definition AgentType :: "string set" where
  "AgentType = {''code'', ''papers'', ''notes_add'', ''notes_read'', ''notes_clear'',
     ''meeting'', ''news'', ''translate'', ''unknown''}"

record Paper =
  title :: string
  authors :: "string list"
  link :: string
  summary :: string
  published :: string

record NewsResult =
  headline :: string
  script :: string
  audioData :: "string option"
  sources :: "(string \<times> string) list option"

type_synonym NoteStore = "(string \<times> string list) list"

record MeetingSession =
  active :: bool
  topic :: string
  mlog :: "string list"
  listening :: bool

datatype Status = planning | executing | success | error

text \<open>
  \<^verbatim>\<open>result: any\<close>: the values that \<^verbatim>\<open>handleRun\<close> stores there. \<open>RInherited k\<close> is the
  member \<open>k\<close> of \<^verbatim>\<open>Object.prototype\<close>, which is not an array.
\<close>

datatype ResultValue =
  RNull
  | RText string
  | RNotes "string list"
  | RPapers "Paper list"
  | RNews NewsResult
  | RInherited string

record HistoryItem =
  item_id :: string
  timestamp :: nat
  userQuery :: string
  plannerOutput :: PlannerOutput
  result :: ResultValue
  status :: Status
  errorMessage :: "string option"

subsection \<open>The services of \<^verbatim>\<open>services/gemini.ts\<close>\<close>

text \<open>A thrown \<^verbatim>\<open>Error\<close>, with its \<^verbatim>\<open>message\<close>.\<close>

datatype JsError = JsError (message: "string option")

text \<open>
  The generative backend: the environment's \<^verbatim>\<open>API_KEY\<close>, the call
  \<^verbatim>\<open>ai.models.generateContent\<close> by model name and contents, whose outcome is a throw or
  the \<^verbatim>\<open>text\<close> of the response, and \<^verbatim>\<open>JSON.parse\<close> at the type \<^verbatim>\<open>PlannerOutput\<close>.
\<close>

record Backend =
  API_KEY :: "string option"
  generateContent :: "string \<Rightarrow> string \<Rightarrow> JsError + string option"
  JSON_parse :: "string \<Rightarrow> JsError + PlannerOutput"

definition getAiClient :: "Backend \<Rightarrow> JsError + unit" where
  "getAiClient b =
     (if truthy (API_KEY b) then Inr ()
      else Inl (JsError (Some ''API Key not found in environment'')))"

definition planning_failed :: PlannerOutput where
  "planning_failed =
     \<lparr>agent = ''unknown'',
      info = \<lparr>info_topic = None, content = None, meetingAction = None, language = None\<rparr>,
      reasoning = Some ''Planning failed due to API error.''\<rparr>"

text \<open>\<^verbatim>\<open>getAiClient()\<close> is called before the \<^verbatim>\<open>try\<close>, so its throw escapes.\<close>

definition planRequest :: "Backend \<Rightarrow> string \<Rightarrow> JsError + PlannerOutput" where
  "planRequest b query =
     (case getAiClient b of
        Inl e \<Rightarrow> Inl e
      | Inr _ \<Rightarrow>
          (case generateContent b ''gemini-3-pro-preview'' query of
             Inl e \<Rightarrow> Inr planning_failed
           | Inr text \<Rightarrow>
               (case text of
                  None \<Rightarrow> Inr planning_failed
                | Some t \<Rightarrow>
                    if t = [] then Inr planning_failed
                    else (case JSON_parse b t of
                            Inl e \<Rightarrow> Inr planning_failed
                          | Inr plan \<Rightarrow> Inr plan))))"

definition summary_prompt :: "string \<Rightarrow> string list \<Rightarrow> string" where
  \<open>summary_prompt tp lg =
     [CHR 0x0A] @ ''    You are an intelligent personal assistant.'' @
     [CHR 0x0A] @ ''    Analyze the following meeting transcript/log for topic "'' @ tp @ ''".'' @
     [CHR 0x0A] @ ''    '' @
     [CHR 0x0A] @ ''    1. Summarize the key points in 3-5 bullets.'' @
     [CHR 0x0A] @ ''    2. Crucially, identify specific action items or relevant information for "Me" (the user). Tell me exactly what I need to do or know.'' @
     [CHR 0x0A] @ ''    '' @
     [CHR 0x0A] @ ''    Log:'' @
     [CHR 0x0A] @ ''    '' @ join [CHR 0x0A] lg @
     [CHR 0x0A] @ ''  ''\<close>

definition summarizeMeetingLog :: "Backend \<Rightarrow> string \<Rightarrow> string list \<Rightarrow> JsError + string" where
  "summarizeMeetingLog b tp lg =
     (case getAiClient b of
        Inl e \<Rightarrow> Inl e
      | Inr _ \<Rightarrow>
          (case generateContent b ''gemini-2.5-flash'' (summary_prompt tp lg) of
             Inl e \<Rightarrow> Inl e
           | Inr text \<Rightarrow> Inr (or_else text ''Could not generate summary.'')))"

subsection \<open>The state of the component \<^verbatim>\<open>App\<close> and its collaborators\<close>

record AppState =
  input :: string
  history :: "HistoryItem list"
  note_store :: NoteStore
  meeting :: MeetingSession
  loading :: bool

definition initial_meeting :: MeetingSession where
  "initial_meeting = \<lparr>active = False, topic = [], mlog = [], listening = False\<rparr>"

definition initial_state :: AppState where
  "initial_state =
     \<lparr>input = [], history = [], note_store = [], meeting = initial_meeting, loading = False\<rparr>"

text \<open>
  What \<^verbatim>\<open>handleRun\<close> gets from outside: the backend behind \<^verbatim>\<open>planRequest\<close> and
  \<^verbatim>\<open>summarizeMeetingLog\<close>, the other imported services as settled calls, and the clock
  \<^verbatim>\<open>Date.now()\<close>.
\<close>

record Env =
  ai :: Backend
  generateCode :: "string \<Rightarrow> string option \<Rightarrow> JsError + string"
  searchArxiv :: "string \<Rightarrow> JsError + Paper list"
  generateNews :: "string \<Rightarrow> JsError + NewsResult"
  translateText :: "string \<Rightarrow> string \<Rightarrow> JsError + string"
  now :: nat

text \<open>The calls to the imported services, in the order \<^verbatim>\<open>handleRun\<close> makes them.\<close>

datatype Call =
  CallPlanRequest string
  | CallGenerateCode string "string option"
  | CallSearchArxiv string
  | CallGenerateNews string
  | CallTranslateText string string
  | CallSummarizeMeetingLog string "string list"

text \<open>
  The variables of the inner \<^verbatim>\<open>try\<close> block: the local \<^verbatim>\<open>result\<close>, \<^verbatim>\<open>status\<close> and
  \<^verbatim>\<open>textToSpeak\<close>, the state behind \<^verbatim>\<open>setNotes\<close> and \<^verbatim>\<open>setMeeting\<close>, the calls made,
  and the error thrown out of the block, if any.

  A state setter called with an updater function only queues it: React runs the updater
  when it renders, after the setter has returned. An updater that throws therefore throws
  nothing into the \<^verbatim>\<open>try\<close> block; the state it was to update stays as it was, and
  \<open>x_updater_threw\<close> records that the rendering will raise the error.
\<close>

record Exec =
  x_result :: ResultValue
  x_status :: Status
  x_textToSpeak :: string
  x_notes :: NoteStore
  x_meeting :: MeetingSession
  x_calls :: "Call list"
  x_thrown :: "JsError option"
  x_updater_threw :: bool

definition exec_start :: "NoteStore \<Rightarrow> MeetingSession \<Rightarrow> Exec" where
  "exec_start ns m =
     \<lparr>x_result = RText ''Done.'', x_status = success, x_textToSpeak = [],
      x_notes = ns, x_meeting = m, x_calls = [], x_thrown = None, x_updater_threw = False\<rparr>"

subsection \<open>The cases of the \<^verbatim>\<open>switch (plan.agent)\<close>\<close>

definition exec_code :: "Env \<Rightarrow> string \<Rightarrow> PlannerInfo \<Rightarrow> Exec \<Rightarrow> Exec" where
  "exec_code env query i x =
     (let codeTopic = or_else (info_topic i) query;
          x1 = x\<lparr>x_calls := x_calls x @ [CallGenerateCode codeTopic (content i)]\<rparr>
      in case generateCode env codeTopic (content i) of
           Inl e \<Rightarrow> x1\<lparr>x_thrown := Some e\<rparr>
         | Inr code \<Rightarrow>
             x1\<lparr>x_result := RText code,
                x_textToSpeak := ''I've generated the Python code for '' @ codeTopic @ ''.''\<rparr>)"

definition exec_papers :: "Env \<Rightarrow> PlannerInfo \<Rightarrow> Exec \<Rightarrow> Exec" where
  "exec_papers env i x =
     (let paperTopic = or_else (info_topic i) ''General AI'';
          x1 = x\<lparr>x_calls := x_calls x @ [CallSearchArxiv paperTopic]\<rparr>
      in case searchArxiv env paperTopic of
           Inl e \<Rightarrow> x1\<lparr>x_thrown := Some e\<rparr>
         | Inr papers \<Rightarrow>
             x1\<lparr>x_result := RPapers papers,
                x_textToSpeak := ''I found some ArXiv papers related to '' @ paperTopic @ ''.''\<rparr>)"

definition exec_news :: "Env \<Rightarrow> PlannerInfo \<Rightarrow> Exec \<Rightarrow> Exec" where
  "exec_news env i x =
     (let newsTopic = or_else (info_topic i) ''Latest Tech'';
          x1 = x\<lparr>x_calls := x_calls x @ [CallGenerateNews newsTopic]\<rparr>
      in case generateNews env newsTopic of
           Inl e \<Rightarrow> x1\<lparr>x_thrown := Some e\<rparr>
         | Inr newsResult \<Rightarrow>
             x1\<lparr>x_result := RNews newsResult,
                x_textToSpeak := ''Here is the latest news update.''\<rparr>)"

definition exec_translate :: "Env \<Rightarrow> string \<Rightarrow> PlannerInfo \<Rightarrow> Exec \<Rightarrow> Exec" where
  "exec_translate env query i x =
     (let contentToTranslate = or_else (content i) query;
          targetLang = or_else (language i) ''English'';
          x1 = x\<lparr>x_calls := x_calls x @ [CallTranslateText contentToTranslate targetLang]\<rparr>
      in case translateText env contentToTranslate targetLang of
           Inl e \<Rightarrow> x1\<lparr>x_thrown := Some e\<rparr>
         | Inr translated \<Rightarrow> x1\<lparr>x_result := RText translated, x_textToSpeak := translated\<rparr>)"

text \<open>
  The updater of \<^verbatim>\<open>notes_add\<close>,
  \<^verbatim>\<open>prev => ({...prev, [addTopic]: [...(prev[addTopic] || []), noteContent]})\<close>.
  An array is truthy, also when it is empty, so an own property is spread as it is;
  \<^verbatim>\<open>undefined\<close> gives \<^verbatim>\<open>[]\<close>; an inherited member is truthy and not iterable, so
  spreading it throws a \<^verbatim>\<open>TypeError\<close>, which is \<^term>\<open>None\<close> here.
\<close>

definition add_note :: "string \<Rightarrow> string \<Rightarrow> NoteStore \<Rightarrow> NoteStore option" where
  "add_note addTopic noteContent prev =
     (case get_prop prev addTopic of
        Own l \<Rightarrow> Some (set_prop addTopic (l @ [noteContent]) prev)
      | Undefined \<Rightarrow> Some (set_prop addTopic ([] @ [noteContent]) prev)
      | Inherited k \<Rightarrow> None)"

definition exec_notes_add :: "PlannerInfo \<Rightarrow> Exec \<Rightarrow> Exec" where
  \<open>exec_notes_add i x =
     (let addTopic = toLowerCase (or_else (info_topic i) ''general'');
          noteContent = content i
      in if truthy noteContent then
           (let x1 = (case add_note addTopic (or_else noteContent []) (x_notes x) of
                        Some next \<Rightarrow> x\<lparr>x_notes := next\<rparr>
                      | None \<Rightarrow> x\<lparr>x_updater_threw := True\<rparr>)
            in x1\<lparr>x_result := RText (''Added note to "'' @ addTopic @ ''".''),
                  x_textToSpeak := ''Note added to '' @ addTopic @ ''.''\<rparr>)
         else
           x\<lparr>x_result := RText ''No content provided for the note.'',
             x_status := error,
             x_textToSpeak := ''I didn't catch what you wanted to write.''\<rparr>)\<close>

text \<open>
  \<^verbatim>\<open>notes_read\<close> reads \<^verbatim>\<open>notes\<close>, the value of the state when \<^verbatim>\<open>handleRun\<close> was called,
  given here as \<open>ns\<close>. In \<^verbatim>\<open>notes[readTopic] || []\<close> an own array and an inherited member
  are both truthy.
\<close>

definition exec_notes_read :: "NoteStore \<Rightarrow> PlannerInfo \<Rightarrow> Exec \<Rightarrow> Exec" where
  "exec_notes_read ns i x =
     (let readTopic = toLowerCase (or_else (info_topic i) [])
      in if readTopic = ''all'' \<or> readTopic = [] then
           (let flat = concat (map snd ns)
            in x\<lparr>x_result := RNotes (if length flat = 0 then [''No notes found.''] else flat),
                 x_textToSpeak := ''Here are all your notes.''\<rparr>)
         else
           x\<lparr>x_result :=
               (case get_prop ns readTopic of
                  Own l \<Rightarrow> RNotes l
                | Inherited k \<Rightarrow> RInherited k
                | Undefined \<Rightarrow> RNotes []),
             x_textToSpeak := ''Here are your notes on '' @ readTopic @ ''.''\<rparr>)"

definition exec_notes_clear :: "PlannerInfo \<Rightarrow> Exec \<Rightarrow> Exec" where
  \<open>exec_notes_clear i x =
     (let clearTopic = toLowerCase (or_else (info_topic i) [])
      in if clearTopic \<noteq> [] then
           x\<lparr>x_notes := delete_prop clearTopic (x_notes x),
             x_result := RText (''Cleared notes for "'' @ clearTopic @ ''".''),
             x_textToSpeak := ''Cleared notes for '' @ clearTopic @ ''.''\<rparr>
         else
           x\<lparr>x_notes := [],
             x_result := RText ''Cleared all notes.'',
             x_textToSpeak := ''All notes cleared.''\<rparr>)\<close>

text \<open>
  The \<^verbatim>\<open>meeting\<close> case tests \<^verbatim>\<open>meeting.active\<close> and passes \<^verbatim>\<open>meeting.topic\<close> and
  \<^verbatim>\<open>meeting.log\<close> of the state when \<^verbatim>\<open>handleRun\<close> was called, given here as \<open>m\<close>;
  the updater form \<^verbatim>\<open>setMeeting(prev => ...)\<close> works on the state behind the setter.
\<close>

definition exec_meeting_start :: "PlannerInfo \<Rightarrow> Exec \<Rightarrow> Exec" where
  "exec_meeting_start i x =
     (let mTopic = or_else (info_topic i) ''General Meeting''
      in x\<lparr>x_meeting := \<lparr>active = True, topic = mTopic, mlog = [], listening = True\<rparr>,
           x_result := RText (''Started meeting: '' @ mTopic @ ''. I am listening.''),
           x_textToSpeak := ''Meeting started on '' @ mTopic @ ''. I am listening.''\<rparr>)"

definition exec_meeting_add :: "string \<Rightarrow> MeetingSession \<Rightarrow> PlannerInfo \<Rightarrow> Exec \<Rightarrow> Exec" where
  \<open>exec_meeting_add query m i x =
     (if \<not> active m then
        (let mTopic = ''Ad-hoc Discussion'';
             c = or_else (content i) query
         in x\<lparr>x_meeting := \<lparr>active = True, topic = mTopic, mlog = [c], listening = False\<rparr>,
              x_result := RText (''No active meeting found. Started "'' @ mTopic @
                                 ''" and added log entry.''),
              x_textToSpeak := ''Meeting started and entry added.''\<rparr>)
      else if truthy (content i) then
        x\<lparr>x_meeting := (x_meeting x)\<lparr>mlog := mlog (x_meeting x) @ [or_else (content i) []]\<rparr>,
          x_result := RText ''Added to meeting log.'',
          x_textToSpeak := ''Added.''\<rparr>
      else
        x\<lparr>x_result := RText ''Nothing to add.'',
          x_textToSpeak := ''I didn't catch that.''\<rparr>)\<close>

definition exec_meeting_stop :: "Env \<Rightarrow> MeetingSession \<Rightarrow> Exec \<Rightarrow> Exec" where
  "exec_meeting_stop env m x =
     (if \<not> active m then
        x\<lparr>x_result := RText ''No active meeting to stop.'',
          x_status := error,
          x_textToSpeak := ''There is no active meeting.''\<rparr>
      else
        (let x1 = x\<lparr>x_meeting := (x_meeting x)\<lparr>listening := False\<rparr>,
                    x_calls := x_calls x @ [CallSummarizeMeetingLog (topic m) (mlog m)]\<rparr>
         in case summarizeMeetingLog (ai env) (topic m) (mlog m) of
              Inl e \<Rightarrow> x1\<lparr>x_thrown := Some e\<rparr>
            | Inr s \<Rightarrow>
                x1\<lparr>x_meeting := \<lparr>active = False, topic = [], mlog = [], listening = False\<rparr>,
                   x_result := RText s,
                   x_textToSpeak := ''Meeting stopped. Here is your summary and action items.''\<rparr>))"

definition exec_meeting :: "Env \<Rightarrow> string \<Rightarrow> MeetingSession \<Rightarrow> PlannerInfo \<Rightarrow> Exec \<Rightarrow> Exec" where
  "exec_meeting env query m i x =
     (let action = meetingAction i
      in if action = Some ''start'' then exec_meeting_start i x
         else if action = Some ''add'' then exec_meeting_add query m i x
         else if action = Some ''stop'' then exec_meeting_stop env m x
         else x\<lparr>x_result := RText ''Unknown meeting action.'', x_status := error\<rparr>)"

definition exec_unknown :: "Exec \<Rightarrow> Exec" where
  "exec_unknown x =
     x\<lparr>x_result := RText ''I couldn't quite understand that. I can help with Python code, searching ArXiv papers, taking notes, reading news, translation, or tracking meetings.'',
       x_status := error,
       x_textToSpeak := ''I'm not sure how to help with that.''\<rparr>"

text \<open>The \<^verbatim>\<open>switch\<close> itself. It has no \<^verbatim>\<open>default\<close> case.\<close>

definition execute :: "Env \<Rightarrow> string \<Rightarrow> NoteStore \<Rightarrow> MeetingSession \<Rightarrow> PlannerOutput \<Rightarrow> Exec" where
  "execute env query ns m plan =
     (let a = agent plan; i = info plan; x = exec_start ns m
      in if a = ''code'' then exec_code env query i x
         else if a = ''papers'' then exec_papers env i x
         else if a = ''news'' then exec_news env i x
         else if a = ''translate'' then exec_translate env query i x
         else if a = ''notes_add'' then exec_notes_add i x
         else if a = ''notes_read'' then exec_notes_read ns i x
         else if a = ''notes_clear'' then exec_notes_clear i x
         else if a = ''meeting'' then exec_meeting env query m i x
         else if a = ''unknown'' then exec_unknown x
         else x)"

subsection \<open>\<^verbatim>\<open>handleRun\<close>\<close>

text \<open>
  What a call of \<^verbatim>\<open>handleRun\<close> leaves: the state, the service calls it made, the text
  it handed to \<^verbatim>\<open>generateSpeech\<close>, if any, and whether a queued updater throws when
  React renders. The playback and the rendering that follow are not modelled.
\<close>

record Run =
  r_state :: AppState
  r_calls :: "Call list"
  r_speak :: "string option"
  r_updater_threw :: bool

definition new_item :: "nat \<Rightarrow> string \<Rightarrow> HistoryItem" where
  "new_item t query =
     \<lparr>item_id = toString t, timestamp = t, userQuery = query,
      plannerOutput =
        \<lparr>agent = ''unknown'',
         info = \<lparr>info_topic = None, content = None, meetingAction = None, language = None\<rparr>,
         reasoning = None\<rparr>,
      result = RNull, status = planning, errorMessage = None\<rparr>"

text \<open>The \<^verbatim>\<open>catch (execError)\<close> of the inner \<^verbatim>\<open>try\<close>, then the lines up to \<^verbatim>\<open>setHistory\<close>.\<close>

definition finish_item :: "HistoryItem \<Rightarrow> PlannerOutput \<Rightarrow> Exec \<Rightarrow> HistoryItem" where
  "finish_item newItem plan x =
     (case x_thrown x of
        None \<Rightarrow>
          newItem\<lparr>plannerOutput := plan, result := x_result x, status := x_status x,
                  errorMessage := Some []\<rparr>
      | Some execError \<Rightarrow>
          newItem\<lparr>plannerOutput := plan, result := x_result x, status := error,
                  errorMessage := Some (or_else (message execError) ''Execution failed'')\<rparr>)"

definition spoken_text :: "Exec \<Rightarrow> string" where
  "spoken_text x =
     (case x_thrown x of
        None \<Rightarrow> x_textToSpeak x
      | Some execError \<Rightarrow> ''Something went wrong during execution.'')"

definition handleRun :: "Env \<Rightarrow> string option \<Rightarrow> AppState \<Rightarrow> Run" where
  "handleRun env overrideInput s =
     (let query = or_else overrideInput (input s)
      in if trim query = [] \<or> loading s then \<lparr>r_state = s, r_calls = [], r_speak = None, r_updater_threw = False\<rparr>
         else
           (let newItem = new_item (now env) query
            in case planRequest (ai env) query of
                 Inl err \<Rightarrow>
                   \<lparr>r_state =
                      s\<lparr>input := [],
                        history := history s @
                          [newItem\<lparr>status := error,
                                   errorMessage := Some ''Planning failed unexpectedly.''\<rparr>],
                        loading := False\<rparr>,
                    r_calls = [CallPlanRequest query],
                    r_speak = None,
                    r_updater_threw = False\<rparr>
               | Inr plan \<Rightarrow>
                   (let x = execute env query (note_store s) (meeting s) plan
                    in \<lparr>r_state =
                          s\<lparr>input := [],
                            history := history s @ [finish_item newItem plan x],
                            note_store := x_notes x,
                            meeting := x_meeting x,
                            loading := False\<rparr>,
                        r_calls = CallPlanRequest query # x_calls x,
                        r_speak =
                          (if spoken_text x \<noteq> [] then Some (spoken_text x) else None),
                        r_updater_threw = x_updater_threw x\<rparr>)))"

subsection \<open>The other writers of the meeting session\<close>

definition toggleMeetingListener :: "MeetingSession \<Rightarrow> MeetingSession" where
  "toggleMeetingListener prev = prev\<lparr>listening := \<not> listening prev\<rparr>"

text \<open>\<^verbatim>\<open>recognition.onresult\<close> with a final result whose transcript is \<open>t\<close>.\<close>

definition onresult :: "string \<Rightarrow> MeetingSession \<Rightarrow> MeetingSession" where
  "onresult t prev =
     (let transcript = trim t
      in if transcript \<noteq> [] then prev\<lparr>mlog := mlog prev @ [''[Speech]: '' @ transcript]\<rparr>
         else prev)"

text \<open>
  The listener gives up (no speech recognition in the browser, permission denied, or
  \<^verbatim>\<open>recognition.start()\<close> threw): \<^verbatim>\<open>setMeeting(prev => ({...prev, listening: false}))\<close>.
\<close>

definition listener_off :: "MeetingSession \<Rightarrow> MeetingSession" where
  "listener_off prev = prev\<lparr>listening := False\<rparr>"

text \<open>The effect starts the recognition stream exactly under this condition.\<close>

definition recognition_runs :: "MeetingSession \<Rightarrow> bool" where
  "recognition_runs m = (active m \<and> listening m)"

text \<open>
  The events that write the state. The toggle button is rendered under
  \<^verbatim>\<open>meeting.active &&\<close>, so a click on it exists only while the session is active.
  A call of \<^verbatim>\<open>handleRun\<close> is taken as one step.
\<close>

datatype Event =
  Submit Env "string option"
  | TypeInput string
  | ClickToggle
  | Transcript string
  | ListenerFailure

fun apply_event :: "AppState \<Rightarrow> Event \<Rightarrow> AppState option" where
  "apply_event s (Submit env overrideInput) = Some (r_state (handleRun env overrideInput s))"
| "apply_event s (TypeInput v) = (if loading s then None else Some (s\<lparr>input := v\<rparr>))"
| "apply_event s ClickToggle =
     (if active (meeting s) then Some (s\<lparr>meeting := toggleMeetingListener (meeting s)\<rparr>)
      else None)"
| "apply_event s (Transcript t) = Some (s\<lparr>meeting := onresult t (meeting s)\<rparr>)"
| "apply_event s ListenerFailure = Some (s\<lparr>meeting := listener_off (meeting s)\<rparr>)"

fun run_events :: "AppState \<Rightarrow> Event list \<Rightarrow> AppState option" where
  "run_events s [] = Some s"
| "run_events s (e # es) =
     (case apply_event s e of None \<Rightarrow> None | Some s' \<Rightarrow> run_events s' es)"

definition meeting_inv :: "MeetingSession \<Rightarrow> bool" where
  "meeting_inv m = (listening m \<longrightarrow> active m)"

subsection \<open>Doubles\<close>

text \<open>
  A JavaScript number is a double: a finite double is \<open>m * 2 ^ e\<close> for integers \<open>m\<close> and
  \<open>e\<close> with \<open>\<bar>m\<bar> < 2 ^ 53\<close> and \<open>- 1074 \<le> e \<le> 971\<close>. Around \<open>x\<close> the doubles are the
  multiples of \<open>2 ^ e\<close> for \<open>e = double_exp x\<close>: the least exponent from \<open>- 1074\<close> on
  with \<open>\<bar>x\<bar> < 2 ^ (e + 53)\<close>. An arithmetic operation on doubles gives the exact result
  rounded to the nearest double, a tie going to the even multiple (\<open>fl\<close>). Overflow to
  \<^verbatim>\<open>Infinity\<close>, from \<open>2 ^ 1024\<close> on, is not modelled; nothing below gets near it.
\<close>

fun find_exp :: "nat \<Rightarrow> int \<Rightarrow> real \<Rightarrow> int" where
  "find_exp 0 e x = e"
| "find_exp (Suc n) e x = (if x < 2 powi (e + 53) then e else find_exp n (e + 1) x)"

definition double_exp :: "real \<Rightarrow> int" where
  "double_exp x = find_exp 2045 (- 1074) \<bar>x\<bar>"

definition round_even :: "real \<Rightarrow> int" where
  "round_even y =
     (let f = \<lfloor>y\<rfloor>; d = y - of_int f
      in if d < 1 / 2 then f else if 1 / 2 < d then f + 1 else if even f then f else f + 1)"

definition fl :: "real \<Rightarrow> real" where
  "fl x = of_int (round_even (x / 2 powi double_exp x)) * 2 powi double_exp x"

subsection \<open>The mouth of \<^verbatim>\<open>BotAvatar\<close>\<close>

text \<open>
  \<^verbatim>\<open>Math.max(2, Math.min(maxHeight, (average / 255) * maxHeight * 3.5))\<close>: a division and
  two multiplications of doubles, each rounded; \<^verbatim>\<open>Math.min\<close> and \<^verbatim>\<open>Math.max\<close> do not
  round, and the constants are doubles.
\<close>

definition mouth_height :: "bool \<Rightarrow> real \<Rightarrow> real" where
  "mouth_height small average =
     (let maxHeight = (if small then 14 else 24)
      in max 2 (min maxHeight (fl (fl (fl (average / 255) * maxHeight) * 3.5))))"

subsection \<open>Scenarios\<close>

text \<open>
  A backend with a key whose planner call answers with the plan \<open>p\<close> and whose
  \<^verbatim>\<open>gemini-2.5-flash\<close> call has the outcome \<open>flash\<close>, and an environment around it.
\<close>

definition scenario_backend :: "PlannerOutput \<Rightarrow> JsError + string option \<Rightarrow> Backend" where
  "scenario_backend p flash =
     \<lparr>API_KEY = Some ''k'',
      generateContent =
        (\<lambda>model contents. if model = ''gemini-3-pro-preview'' then Inr (Some ''{}'') else flash),
      JSON_parse = (\<lambda>t. Inr p)\<rparr>"

definition scenario_env :: "PlannerOutput \<Rightarrow> JsError + string option \<Rightarrow> Env" where
  "scenario_env p flash =
     \<lparr>ai = scenario_backend p flash,
      generateCode = (\<lambda>t d. Inr ''pass''),
      searchArxiv = (\<lambda>t. Inr []),
      generateNews = (\<lambda>t. Inl (JsError (Some ''no news''))),
      translateText = (\<lambda>t l. Inr ''Bonjour''),
      now = 7\<rparr>"

definition plan_of :: "string \<Rightarrow> string option \<Rightarrow> string option \<Rightarrow> string option \<Rightarrow> PlannerOutput" where
  "plan_of a t c act =
     \<lparr>agent = a,
      info = \<lparr>info_topic = t, content = c, meetingAction = act, language = None\<rparr>,
      reasoning = None\<rparr>"

definition standup :: MeetingSession where
  "standup = \<lparr>active = True, topic = ''Standup'', mlog = [''first'', ''second''], listening = True\<rparr>"

definition standup_state :: AppState where
  "standup_state =
     \<lparr>input = ''stop the meeting'', history = [], note_store = [(''work'', [''ship it''])],
      meeting = standup, loading = False\<rparr>"

definition flash_throws :: "JsError + string option" where
  "flash_throws = Inl (JsError (Some ''network down''))"

definition flash_silent :: "JsError + string option" where
  "flash_silent = Inr None"

definition two_topics :: NoteStore where
  "two_topics = [(''work'', [''ship it'', ''review'']), (''home'', [''buy milk''])]"

definition stop_plan :: PlannerOutput where
  "stop_plan = plan_of ''meeting'' None None (Some ''stop'')"

definition stop_env_silent :: Env where
  "stop_env_silent = scenario_env stop_plan flash_silent"

definition stop_env_throws :: Env where
  "stop_env_throws = scenario_env stop_plan flash_throws"

definition weather_plan :: PlannerOutput where
  "weather_plan = plan_of ''weather'' (Some ''Paris'') None None"

definition weather_env :: Env where
  "weather_env = scenario_env weather_plan flash_silent"

definition empty_note_plan :: PlannerOutput where
  "empty_note_plan = plan_of ''notes_add'' (Some ''Work'') None None"

definition empty_note_env :: Env where
  "empty_note_env = scenario_env empty_note_plan flash_silent"

text \<open>No \<^verbatim>\<open>API_KEY\<close> in the environment.\<close>

definition no_key_env :: Env where
  "no_key_env = weather_env\<lparr>ai := (ai weather_env)\<lparr>API_KEY := None\<rparr>\<rparr>"

definition start_plan :: PlannerOutput where
  "start_plan = plan_of ''meeting'' None None (Some ''start'')"

definition start_env :: Env where
  "start_env = scenario_env start_plan flash_silent"

definition add_plan :: PlannerOutput where
  "add_plan = plan_of ''meeting'' None (Some ''budget approved'') (Some ''add'')"

definition add_env :: Env where
  "add_env = scenario_env add_plan flash_silent"

definition session_events :: "Event list" where
  "session_events =
     [TypeInput ''start a meeting'', Submit start_env None, ClickToggle,
      Submit add_env (Some ''log this''), Transcript ''  hello  '', ClickToggle, ListenerFailure]"

definition read_plan :: "string option \<Rightarrow> PlannerOutput" where
  "read_plan t = plan_of ''notes_read'' t None None"

definition milk_plan :: PlannerOutput where
  "milk_plan = plan_of ''notes_add'' None (Some ''Buy milk'') None"

definition clear_plan :: "string option \<Rightarrow> PlannerOutput" where
  "clear_plan t = plan_of ''notes_clear'' t None None"

text \<open>The stand-up meeting from the start: a meeting is started and two entries are added.\<close>

definition standup_events :: "Event list" where
  "standup_events =
     [Submit (scenario_env (plan_of ''meeting'' (Some ''Standup'') None (Some ''start'')) flash_silent)
        (Some ''start the standup''),
      Submit (scenario_env (plan_of ''meeting'' None (Some ''first'') (Some ''add'')) flash_silent)
        (Some ''log first''),
      Submit (scenario_env (plan_of ''meeting'' None (Some ''second'') (Some ''add'')) flash_silent)
        (Some ''log second'')]"

text \<open>An entry is added with no meeting in progress, then the listener is resumed.\<close>

definition adhoc_events :: "Event list" where
  "adhoc_events = [Submit add_env (Some ''log this''), ClickToggle]"

definition adhoc_resumed :: MeetingSession where
  "adhoc_resumed =
     \<lparr>active = True, topic = ''Ad-hoc Discussion'', mlog = [''budget approved''],
      listening = True\<rparr>"

text \<open>A note for the topic \<^verbatim>\<open>Constructor\<close>, and a note for a topic that has notes.\<close>

definition constructor_plan :: PlannerOutput where
  "constructor_plan = plan_of ''notes_add'' (Some ''Constructor'') (Some ''check types'') None"

definition constructor_env :: Env where
  "constructor_env = scenario_env constructor_plan flash_silent"

definition work_plan :: PlannerOutput where
  "work_plan = plan_of ''notes_add'' (Some ''Work'') (Some ''deploy'') None"

subsection \<open>Predicates of the statements\<close>

text \<open>
  The run is a meeting stop on an active session whose call of \<^verbatim>\<open>summarizeMeetingLog\<close>
  throws.
\<close>

definition stop_summary_fails :: "Env \<Rightarrow> string \<Rightarrow> AppState \<Rightarrow> bool" where
  "stop_summary_fails env query s =
     (case planRequest (ai env) query of
        Inl e \<Rightarrow> False
      | Inr plan \<Rightarrow>
          agent plan = ''meeting'' \<and> meetingAction (info plan) = Some ''stop'' \<and>
          active (meeting s) \<and>
          isl (summarizeMeetingLog (ai env) (topic (meeting s)) (mlog (meeting s))))"

section \<open>Properties\<close>

subsection \<open>Unfolding sets\<close>

lemmas string_defs = truthy_def or_else_def lower_char_def toLowerCase_def js_space_def trim_def

lemmas exec_defs = exec_code_def exec_papers_def exec_news_def exec_translate_def
  exec_notes_add_def exec_notes_read_def exec_notes_clear_def exec_meeting_def
  exec_meeting_start_def exec_meeting_add_def exec_meeting_stop_def exec_unknown_def

lemmas run_defs = getAiClient_def planRequest_def summarizeMeetingLog_def exec_start_def
  execute_def handleRun_def new_item_def finish_item_def spoken_text_def Let_def

lemmas scenario_defs = scenario_backend_def scenario_env_def plan_of_def standup_def
  standup_state_def flash_throws_def flash_silent_def two_topics_def stop_plan_def
  stop_env_silent_def stop_env_throws_def weather_plan_def weather_env_def
  empty_note_plan_def empty_note_env_def no_key_env_def
  initial_state_def initial_meeting_def

lemmas event_defs = start_plan_def start_env_def add_plan_def add_env_def session_events_def
  standup_events_def adhoc_events_def adhoc_resumed_def
  toggleMeetingListener_def onresult_def listener_off_def

lemmas notes_scn = read_plan_def milk_plan_def clear_plan_def constructor_plan_def
  constructor_env_def work_plan_def

subsection \<open>Property lists\<close>

lemma map_of_replace_prop:
  "map_of ps k \<noteq> None \<Longrightarrow>
   map_of (replace_prop k v ps) k' = (if k' = k then Some v else map_of ps k')"
  by (induction ps) auto

lemma map_of_insert_index:
  "map_of ps k = None \<Longrightarrow>
   map_of (insert_index n k v ps) k' = (if k' = k then Some v else map_of ps k')"
  by (induction ps) (auto split: option.splits if_splits)

lemma map_of_set_prop:
  "map_of (set_prop k v ps) k' = (if k' = k then Some v else map_of ps k')"
proof (cases "map_of ps k")
  case None
  then have "k \<notin> set (map fst ps)"
    by (simp add: map_of_eq_None_iff)
  with None show ?thesis
    by (auto simp: set_prop_def create_prop_def map_of_insert_index map_add_def
        split: option.splits)
next
  case (Some w)
  then have "k \<in> set (map fst ps)"
    using map_of_eq_None_iff [of ps k] by simp
  with Some show ?thesis
    by (simp add: set_prop_def map_of_replace_prop)
qed

lemma map_of_delete_prop:
  "map_of (delete_prop k ps) k' = (if k' = k then None else map_of ps k')"
  by (induction ps) (auto simp: delete_prop_def)

lemma toLowerCase_Nil_iff: "toLowerCase s = [] \<longleftrightarrow> s = []"
  by (simp add: toLowerCase_def)

lemma truthy_or_else: "truthy x \<longleftrightarrow> or_else x [] \<noteq> []"
  by (simp add: truthy_def or_else_def split: option.splits)

subsection \<open>The switch, case by case\<close>

lemma execute_eqs:
  shows "agent plan = ''code'' \<Longrightarrow>
    execute env query ns m plan = exec_code env query (info plan) (exec_start ns m)"
  and "agent plan = ''papers'' \<Longrightarrow>
    execute env query ns m plan = exec_papers env (info plan) (exec_start ns m)"
  and "agent plan = ''news'' \<Longrightarrow>
    execute env query ns m plan = exec_news env (info plan) (exec_start ns m)"
  and "agent plan = ''translate'' \<Longrightarrow>
    execute env query ns m plan = exec_translate env query (info plan) (exec_start ns m)"
  and "agent plan = ''notes_add'' \<Longrightarrow>
    execute env query ns m plan = exec_notes_add (info plan) (exec_start ns m)"
  and "agent plan = ''notes_read'' \<Longrightarrow>
    execute env query ns m plan = exec_notes_read ns (info plan) (exec_start ns m)"
  and "agent plan = ''notes_clear'' \<Longrightarrow>
    execute env query ns m plan = exec_notes_clear (info plan) (exec_start ns m)"
  and "agent plan = ''meeting'' \<Longrightarrow>
    execute env query ns m plan = exec_meeting env query m (info plan) (exec_start ns m)"
  and "agent plan = ''unknown'' \<Longrightarrow>
    execute env query ns m plan = exec_unknown (exec_start ns m)"
  and "agent plan \<notin> AgentType \<Longrightarrow>
    execute env query ns m plan = exec_start ns m"
  by (simp_all add: execute_def AgentType_def)

lemma agent_cases:
  obtains "agent plan = ''code''" | "agent plan = ''papers''" | "agent plan = ''news''"
  | "agent plan = ''translate''" | "agent plan = ''notes_add''" | "agent plan = ''notes_read''"
  | "agent plan = ''notes_clear''" | "agent plan = ''meeting''" | "agent plan = ''unknown''"
  | "agent plan \<notin> AgentType"
  unfolding AgentType_def by blast

text \<open>The local \<^verbatim>\<open>status\<close> is never anything but \<^verbatim>\<open>'success'\<close> or \<^verbatim>\<open>'error'\<close>.\<close>

lemma execute_status:
  "x_status (execute env query ns m plan) = success \<or>
   x_status (execute env query ns m plan) = error"
  by (cases plan rule: agent_cases)
     (simp_all add: execute_eqs exec_defs exec_start_def Let_def
        split: sum.splits option.splits)

text \<open>
  What the state setters have done when the block threw or set \<^verbatim>\<open>status = 'error'\<close>:
  nothing, but for \<^verbatim>\<open>listening: false\<close> ahead of a summarization that throws.
\<close>

lemma execute_error_frame:
  assumes "x_thrown (execute env query ns m plan) \<noteq> None \<or>
           x_status (execute env query ns m plan) = error"
  shows "x_notes (execute env query ns m plan) = ns \<and>
         x_meeting (execute env query ns m plan) =
           (if agent plan = ''meeting'' \<and> meetingAction (info plan) = Some ''stop'' \<and> active m \<and>
               isl (summarizeMeetingLog (ai env) (topic m) (mlog m))
            then m\<lparr>listening := False\<rparr> else m)"
  using assms
  by (cases plan rule: agent_cases)
     (simp_all add: execute_eqs exec_defs exec_start_def Let_def AgentType_def
        split: sum.splits option.splits if_splits)

lemma execute_meeting_inv:
  "meeting_inv m \<Longrightarrow> meeting_inv (x_meeting (execute env query ns m plan))"
  apply (cases plan rule: agent_cases)
  apply (simp_all add: meeting_inv_def execute_eqs exec_defs exec_start_def Let_def
      split: sum.splits option.splits)
  apply blast
  done

lemma finish_item_status:
  "status (finish_item newItem plan x) = (if x_thrown x = None then x_status x else error)"
  by (simp add: finish_item_def split: option.splits)

lemma handleRun_meeting_inv:
  "meeting_inv (meeting s) \<Longrightarrow> meeting_inv (meeting (r_state (handleRun env overrideInput s)))"
  by (simp add: handleRun_def Let_def execute_meeting_inv split: sum.splits)

lemma apply_event_meeting_inv:
  assumes "meeting_inv (meeting s)" and "apply_event s e = Some s'"
  shows "meeting_inv (meeting s')"
proof (cases e)
  case (Submit env overrideInput)
  with assms show ?thesis
    using handleRun_meeting_inv [of s env overrideInput] by auto
qed (use assms in \<open>auto simp: meeting_inv_def toggleMeetingListener_def onresult_def
       listener_off_def Let_def split: if_splits\<close>)

lemma run_events_meeting_inv:
  "meeting_inv (meeting s) \<Longrightarrow> run_events s es = Some t \<Longrightarrow> meeting_inv (meeting t)"
proof (induction es arbitrary: s)
  case Nil
  then show ?case by simp
next
  case (Cons e es)
  then show ?case
    by (auto split: option.splits dest: apply_event_meeting_inv)
qed

text \<open>The scenarios' queries are accepted, and their planner calls return the scenario's plan.\<close>

lemma standup_accepted:
  "trim (or_else None (input standup_state)) \<noteq> []" "\<not> loading standup_state"
  by (simp_all add: scenario_defs string_defs)

lemma scenario_planRequest:
  "planRequest (ai (scenario_env p flash)) query = Inr p"
  by (simp add: scenario_defs string_defs getAiClient_def planRequest_def)

subsection \<open>Stopping a meeting\<close>

text \<open>
  Claim C1, as amended. A run that handles a meeting \<^verbatim>\<open>stop\<close> while a meeting is active
  stops listening and calls the summarizer with exactly the session's topic and its log
  entries in order. When the summarizer returns (a summary or its fallback string), the
  session is then reset to the inactive, empty state, and the result is the returned
  text with status \<^verbatim>\<open>success\<close>. When the summarizer throws, there is no reset: the session
  stays active with its topic and log, listening is false, and the status is \<^verbatim>\<open>error\<close>.
\<close>

theorem meeting_stop_run:
  assumes "trim (or_else overrideInput (input s)) \<noteq> []" and "\<not> loading s"
    and "planRequest (ai env) (or_else overrideInput (input s)) = Inr plan"
    and "agent plan = ''meeting''" and "meetingAction (info plan) = Some ''stop''"
    and "active (meeting s)"
  shows "let r = handleRun env overrideInput s;
             m = meeting s;
             item = last (history (r_state r))
         in r_calls r = [CallPlanRequest (or_else overrideInput (input s)),
                         CallSummarizeMeetingLog (topic m) (mlog m)] \<and>
            \<not> listening (meeting (r_state r)) \<and>
            (case summarizeMeetingLog (ai env) (topic m) (mlog m) of
               Inr text \<Rightarrow>
                 meeting (r_state r) =
                   \<lparr>active = False, topic = [], mlog = [], listening = False\<rparr> \<and>
                 result item = RText text \<and> status item = success
             | Inl e \<Rightarrow>
                 meeting (r_state r) = m\<lparr>listening := False\<rparr> \<and>
                 result item = RText ''Done.'' \<and> status item = error)"
  using assms
  by (simp add: handleRun_def execute_eqs exec_meeting_def exec_meeting_stop_def exec_start_def
      finish_item_def Let_def split: sum.splits)

text \<open>
  The stand-up meeting with two log entries is stopped twice: once with a summarizer that
  answers with no text (the fallback string), once with a summarizer that throws.
\<close>

theorem meeting_stop_run_witness:
  "active (meeting standup_state) \<and>
   r_calls (handleRun stop_env_silent None standup_state) =
     [CallPlanRequest ''stop the meeting'',
      CallSummarizeMeetingLog ''Standup'' [''first'', ''second'']] \<and>
   meeting (r_state (handleRun stop_env_silent None standup_state)) =
     \<lparr>active = False, topic = [], mlog = [], listening = False\<rparr> \<and>
   result (last (history (r_state (handleRun stop_env_silent None standup_state)))) =
     RText ''Could not generate summary.'' \<and>
   meeting (r_state (handleRun stop_env_throws None standup_state)) =
     \<lparr>active = True, topic = ''Standup'', mlog = [''first'', ''second''], listening = False\<rparr> \<and>
   status (last (history (r_state (handleRun stop_env_throws None standup_state)))) = error"
proof -
  have a: "active (meeting standup_state)"
    by (simp add: scenario_defs)
  have p1: "planRequest (ai stop_env_silent) (or_else None (input standup_state)) = Inr stop_plan"
    and p2: "planRequest (ai stop_env_throws) (or_else None (input standup_state)) = Inr stop_plan"
    by (simp_all add: stop_env_silent_def stop_env_throws_def scenario_planRequest)
  have g: "agent stop_plan = ''meeting''" "meetingAction (info stop_plan) = Some ''stop''"
    by (simp_all add: scenario_defs)
  have s1: "summarizeMeetingLog (ai stop_env_silent) ''Standup'' [''first'', ''second''] =
      Inr ''Could not generate summary.''"
    and s2: "summarizeMeetingLog (ai stop_env_throws) ''Standup'' [''first'', ''second''] =
      Inl (JsError (Some ''network down''))"
    by (simp_all add: scenario_defs string_defs getAiClient_def summarizeMeetingLog_def)
  show ?thesis
    using meeting_stop_run [OF standup_accepted p1 g a]
      meeting_stop_run [OF standup_accepted p2 g a] a s1 s2
    by (simp add: Let_def scenario_defs string_defs)
qed

text \<open>The stand-up state's meeting is what starting a meeting and adding two entries gives.\<close>

lemma standup_reached:
  "map_option meeting (run_events initial_state standup_events) = Some standup"
  by (simp add: scenario_defs event_defs string_defs run_defs exec_meeting_def
      exec_meeting_start_def exec_meeting_add_def)

text \<open>
  The claim as it was stated fails when the summarizer throws: the meeting is active before
  the run, the run handles a meeting stop, and afterwards the session is still active and
  its log is not empty. The same from the initial state: a meeting is started, two entries
  are added, and the stop leaves the session active with both entries.
\<close>

theorem meeting_stop_reset_counterexample:
  "active (meeting standup_state) \<and>
   agent (plannerOutput (last (history (r_state (handleRun stop_env_throws None standup_state)))))
     = ''meeting'' \<and>
   meetingAction (info (plannerOutput
       (last (history (r_state (handleRun stop_env_throws None standup_state))))))
     = Some ''stop'' \<and>
   active (meeting (r_state (handleRun stop_env_throws None standup_state))) \<and>
   mlog (meeting (r_state (handleRun stop_env_throws None standup_state))) \<noteq> [] \<and>
   map_option meeting
     (run_events initial_state
        (standup_events @ [Submit stop_env_throws (Some ''stop the meeting'')])) =
     Some \<lparr>active = True, topic = ''Standup'', mlog = [''first'', ''second''],
           listening = False\<rparr>"
  by (simp add: scenario_defs event_defs string_defs run_defs exec_meeting_def
      exec_meeting_start_def exec_meeting_add_def exec_meeting_stop_def)

subsection \<open>An agent outside the declared set\<close>

text \<open>
  Claim C2, as amended. When the planner's result names an agent that is not one of the nine
  declared ones, the run is not treated as \<^verbatim>\<open>unknown\<close>: no case of the switch matches, so
  the History item carries the initial result \<^verbatim>\<open>"Done."\<close> with status \<^verbatim>\<open>success\<close> and an
  empty error message, notes and meeting are unchanged, no service beyond the planner is
  called and nothing is spoken.
\<close>

theorem unlisted_agent_run:
  assumes "trim (or_else overrideInput (input s)) \<noteq> []" and "\<not> loading s"
    and "planRequest (ai env) (or_else overrideInput (input s)) = Inr plan"
    and "agent plan \<notin> AgentType"
  shows "let r = handleRun env overrideInput s;
             query = or_else overrideInput (input s)
         in history (r_state r) =
              history s @
                [(new_item (now env) query)
                   \<lparr>plannerOutput := plan, result := RText ''Done.'', status := success,
                    errorMessage := Some []\<rparr>] \<and>
            note_store (r_state r) = note_store s \<and>
            meeting (r_state r) = meeting s \<and>
            r_calls r = [CallPlanRequest query] \<and>
            r_speak r = None"
  using assms
  by (simp add: handleRun_def execute_eqs exec_start_def finish_item_def spoken_text_def Let_def)

text \<open>The planner answers with the agent \<^verbatim>\<open>weather\<close>.\<close>

theorem unlisted_agent_run_witness:
  "agent weather_plan \<notin> AgentType \<and>
   map status (history (r_state (handleRun weather_env None standup_state))) = [success] \<and>
   map result (history (r_state (handleRun weather_env None standup_state))) = [RText ''Done.''] \<and>
   meeting (r_state (handleRun weather_env None standup_state)) = standup \<and>
   r_speak (handleRun weather_env None standup_state) = None"
proof -
  have p: "planRequest (ai weather_env) (or_else None (input standup_state)) = Inr weather_plan"
    by (simp add: weather_env_def scenario_planRequest)
  have g: "agent weather_plan \<notin> AgentType"
    by (simp add: scenario_defs AgentType_def)
  show ?thesis
    using unlisted_agent_run [OF standup_accepted p g] g
    by (simp add: Let_def new_item_def) (simp add: scenario_defs)
qed

text \<open>
  The claim as it was stated fails for the agent \<^verbatim>\<open>weather\<close>: the status of the History
  item is not \<^verbatim>\<open>error\<close>, and its result is \<^verbatim>\<open>"Done."\<close>.
\<close>

theorem unlisted_agent_counterexample:
  "agent (plannerOutput (last (history (r_state (handleRun weather_env None standup_state)))))
     \<notin> AgentType \<and>
   status (last (history (r_state (handleRun weather_env None standup_state)))) \<noteq> error \<and>
   result (last (history (r_state (handleRun weather_env None standup_state)))) = RText ''Done.''"
  by (simp add: scenario_defs string_defs run_defs AgentType_def)

subsection \<open>Runs that end in an error\<close>

text \<open>
  Claim C3, as amended. A run that ends with History status \<^verbatim>\<open>error\<close> leaves the notes
  exactly as they were, and leaves the meeting session exactly as it was except in one case:
  a meeting stop on an active session whose summarization throws leaves the session with
  listening set to false (active, topic and log unchanged).
\<close>

theorem error_run_session_state:
  assumes "trim (or_else overrideInput (input s)) \<noteq> []" and "\<not> loading s"
    and "status (last (history (r_state (handleRun env overrideInput s)))) = error"
  shows "note_store (r_state (handleRun env overrideInput s)) = note_store s \<and>
         meeting (r_state (handleRun env overrideInput s)) =
           (if stop_summary_fails env (or_else overrideInput (input s)) s
            then (meeting s)\<lparr>listening := False\<rparr> else meeting s)"
proof (cases "planRequest (ai env) (or_else overrideInput (input s))")
  case (Inl err)
  with assms show ?thesis
    by (simp add: handleRun_def stop_summary_fails_def Let_def)
next
  case (Inr plan)
  let ?x = "execute env (or_else overrideInput (input s)) (note_store s) (meeting s) plan"
  from assms Inr have "x_thrown ?x \<noteq> None \<or> x_status ?x = error"
    by (auto simp: handleRun_def Let_def finish_item_status split: if_splits)
  from execute_error_frame [OF this] assms(1,2) Inr show ?thesis
    by (simp add: handleRun_def stop_summary_fails_def Let_def)
qed

text \<open>
  A note without content (a soft failure) leaves notes and meeting as they were; the
  stop whose summarizer throws leaves the meeting with listening switched off.
\<close>

theorem error_run_session_state_witness:
  "status (last (history (r_state (handleRun empty_note_env None standup_state)))) = error \<and>
   note_store (r_state (handleRun empty_note_env None standup_state)) = [(''work'', [''ship it''])] \<and>
   meeting (r_state (handleRun empty_note_env None standup_state)) = standup \<and>
   status (last (history (r_state (handleRun stop_env_throws None standup_state)))) = error \<and>
   note_store (r_state (handleRun stop_env_throws None standup_state)) = [(''work'', [''ship it''])] \<and>
   meeting (r_state (handleRun stop_env_throws None standup_state)) = standup\<lparr>listening := False\<rparr>"
proof -
  have e1: "status (last (history (r_state (handleRun empty_note_env None standup_state)))) = error"
    and e2: "status (last (history (r_state (handleRun stop_env_throws None standup_state)))) = error"
    by (simp_all add: scenario_defs string_defs run_defs exec_notes_add_def
        exec_meeting_def exec_meeting_stop_def)
  have f1: "\<not> stop_summary_fails empty_note_env (or_else None (input standup_state)) standup_state"
    and f2: "stop_summary_fails stop_env_throws (or_else None (input standup_state)) standup_state"
    by (simp_all add: stop_summary_fails_def scenario_defs string_defs getAiClient_def
        planRequest_def summarizeMeetingLog_def)
  show ?thesis
    using error_run_session_state [OF standup_accepted e1]
      error_run_session_state [OF standup_accepted e2] e1 e2 f1 f2
    by (simp add: scenario_defs)
qed

text \<open>
  The claim as it was stated fails for the stop whose summarizer throws: the run ends with
  status \<^verbatim>\<open>error\<close> and the meeting session is not what it was.
\<close>

theorem error_run_session_state_counterexample:
  "status (last (history (r_state (handleRun stop_env_throws None standup_state)))) = error \<and>
   meeting (r_state (handleRun stop_env_throws None standup_state)) \<noteq> meeting standup_state"
  by (simp add: scenario_defs string_defs run_defs exec_meeting_def exec_meeting_stop_def)

subsection \<open>One History item per run\<close>

text \<open>
  Claim C4. For every accepted query (not blank, and no run in flight), \<^verbatim>\<open>handleRun\<close>
  appends exactly one item to the history, for that query, and the item's status is
  \<^verbatim>\<open>success\<close> or \<^verbatim>\<open>error\<close>, never \<^verbatim>\<open>planning\<close> or \<^verbatim>\<open>executing\<close>. (The run returns because
  every awaited call is taken to have settled.)
\<close>

theorem run_appends_one_finished_item:
  assumes "trim (or_else overrideInput (input s)) \<noteq> []" and "\<not> loading s"
  shows "\<exists>item. history (r_state (handleRun env overrideInput s)) = history s @ [item] \<and>
           (status item = success \<or> status item = error) \<and>
           userQuery item = or_else overrideInput (input s)"
proof (cases "planRequest (ai env) (or_else overrideInput (input s))")
  case (Inl err)
  with assms show ?thesis
    by (simp add: handleRun_def new_item_def Let_def)
next
  case (Inr plan)
  with assms show ?thesis
    using execute_status [of env "or_else overrideInput (input s)" "note_store s" "meeting s" plan]
    by (auto simp: handleRun_def new_item_def Let_def finish_item_def split: option.splits)
qed

text \<open>
  Without an API key \<^verbatim>\<open>planRequest\<close> itself throws, and the one item is appended by the
  outer \<^verbatim>\<open>catch\<close>; with a planner that answers, by the main path.
\<close>

theorem run_appends_one_finished_item_witness:
  "trim (or_else None (input standup_state)) \<noteq> [] \<and> \<not> loading standup_state \<and>
   (\<exists>item. history (r_state (handleRun no_key_env None standup_state)) =
             history standup_state @ [item] \<and>
           (status item = success \<or> status item = error) \<and>
           userQuery item = or_else None (input standup_state)) \<and>
   map status (history (r_state (handleRun no_key_env None standup_state))) = [error] \<and>
   map errorMessage (history (r_state (handleRun no_key_env None standup_state))) =
     [Some ''Planning failed unexpectedly.''] \<and>
   map status (history (r_state (handleRun weather_env None standup_state))) = [success]"
proof -
  have "map status (history (r_state (handleRun no_key_env None standup_state))) = [error]"
    and "map errorMessage (history (r_state (handleRun no_key_env None standup_state))) =
     [Some ''Planning failed unexpectedly.'']"
    and "map status (history (r_state (handleRun weather_env None standup_state))) = [success]"
    by (simp_all add: scenario_defs string_defs run_defs AgentType_def)
  with standup_accepted run_appends_one_finished_item [OF standup_accepted, of no_key_env]
  show ?thesis
    by blast
qed

subsection \<open>Listening implies active\<close>

text \<open>
  Claim C5. Every event that writes the meeting session (a run of \<^verbatim>\<open>handleRun\<close>, whatever
  the planner chose, a click on the listener toggle, a transcript, a failure of the listener)
  preserves the invariant that listening implies active; and in every state reached from the
  initial state by such events, a session that is listening is active.
\<close>

theorem listening_implies_active:
  "(meeting_inv (meeting s) \<and> apply_event s e = Some s' \<longrightarrow> meeting_inv (meeting s')) \<and>
   (run_events initial_state es = Some t \<longrightarrow> (listening (meeting t) \<longrightarrow> active (meeting t)))"
proof -
  have "meeting_inv (meeting initial_state)"
    by (simp add: meeting_inv_def initial_state_def initial_meeting_def)
  then have "run_events initial_state es = Some t \<longrightarrow> meeting_inv (meeting t)"
    using run_events_meeting_inv by blast
  then show ?thesis
    using apply_event_meeting_inv [of s e s'] by (auto simp: meeting_inv_def)
qed

text \<open>
  A session: the toggle does not exist before the meeting starts; the meeting is started,
  muted, added to, spoken to, resumed, and the listener fails.
\<close>

theorem listening_implies_active_witness:
  "apply_event initial_state ClickToggle = None \<and>
   meeting_inv (meeting initial_state) \<and>
   map_option meeting (apply_event initial_state (Submit start_env (Some ''start'')))
     = Some \<lparr>active = True, topic = ''General Meeting'', mlog = [], listening = True\<rparr> \<and>
   map_option meeting (run_events initial_state session_events)
     = Some \<lparr>active = True, topic = ''General Meeting'',
             mlog = [''budget approved'', ''[Speech]: hello''], listening = False\<rparr>"
proof -
  have i: "meeting_inv (meeting initial_state)"
    by (simp add: meeting_inv_def scenario_defs)
  have c: "apply_event initial_state ClickToggle = None"
    by (simp add: scenario_defs)
  have a: "map_option meeting (apply_event initial_state (Submit start_env (Some ''start'')))
     = Some \<lparr>active = True, topic = ''General Meeting'', mlog = [], listening = True\<rparr>"
    by (simp add: scenario_defs event_defs string_defs run_defs exec_meeting_def
        exec_meeting_start_def)
  have r: "map_option meeting (run_events initial_state session_events)
     = Some \<lparr>active = True, topic = ''General Meeting'',
             mlog = [''budget approved'', ''[Speech]: hello''], listening = False\<rparr>"
    by (simp add: scenario_defs event_defs string_defs run_defs exec_meeting_def
        exec_meeting_start_def exec_meeting_add_def)
  show ?thesis
    using listening_implies_active
      [of initial_state "Submit start_env (Some ''start'')"
          "r_state (handleRun start_env (Some ''start'') initial_state)"
          session_events "the (run_events initial_state session_events)"] i c a r
    by simp
qed

subsection \<open>Reading notes\<close>

lemma get_prop_cases:
  "get_prop ps k =
     (case map_of ps k of
        Some v \<Rightarrow> Own v
      | None \<Rightarrow> if k \<in> set object_prototype_keys then Inherited k else Undefined)"
  by (simp add: get_prop_def)

text \<open>
  Claim C6, as amended. With the lower-cased topic \<^verbatim>\<open>"all"\<close> or an empty or missing topic,
  \<^verbatim>\<open>notes_read\<close> returns the concatenation of every topic's notes in the order of the
  store, or the one-element sequence \<^verbatim>\<open>["No notes found."]\<close> when that concatenation is
  empty. With any other topic it returns the notes of the lower-cased topic when the store
  has that topic, and the empty sequence when the store does not have it and it is not the
  name of a member of \<^verbatim>\<open>Object.prototype\<close> (after lower-casing these are \<^verbatim>\<open>constructor\<close>
  and \<^verbatim>\<open>__proto__\<close>). In every case the status is \<^verbatim>\<open>success\<close>, nothing is thrown, and
  notes and meeting are unchanged.
\<close>

theorem notes_read_handler:
  assumes "agent plan = ''notes_read''"
  shows "let x = execute env query ns m plan;
             t = toLowerCase (or_else (info_topic (info plan)) []);
             flat = concat (map snd ns)
         in (t = ''all'' \<or> t = [] \<longrightarrow>
               x_result x = RNotes (if flat = [] then [''No notes found.''] else flat)) \<and>
            (t \<noteq> ''all'' \<and> t \<noteq> [] \<longrightarrow>
               (\<forall>l. map_of ns t = Some l \<longrightarrow> x_result x = RNotes l) \<and>
               (map_of ns t = None \<and> t \<notin> set object_prototype_keys \<longrightarrow>
                  x_result x = RNotes [])) \<and>
            x_status x = success \<and> x_thrown x = None \<and> \<not> x_updater_threw x \<and>
            x_notes x = ns \<and> x_meeting x = m"
  using assms
  by (simp add: execute_def exec_notes_read_def exec_start_def get_prop_cases Let_def)

text \<open>
  Reading everything (by \<^verbatim>\<open>"ALL"\<close> and by no topic), one topic, an absent topic, and
  everything from an empty store.
\<close>

theorem notes_read_handler_witness:
  "x_result (execute weather_env ''read'' two_topics standup (read_plan (Some ''ALL''))) =
     RNotes [''ship it'', ''review'', ''buy milk''] \<and>
   x_result (execute weather_env ''read'' two_topics standup (read_plan None)) =
     RNotes [''ship it'', ''review'', ''buy milk''] \<and>
   x_result (execute weather_env ''read'' two_topics standup (read_plan (Some ''Home''))) =
     RNotes [''buy milk''] \<and>
   x_result (execute weather_env ''read'' two_topics standup (read_plan (Some ''Work''))) =
     RNotes [''ship it'', ''review''] \<and>
   x_result (execute weather_env ''read'' two_topics standup (read_plan (Some ''garden''))) =
     RNotes [] \<and>
   x_result (execute weather_env ''read'' [] standup (read_plan (Some ''all''))) =
     RNotes [''No notes found.''] \<and>
   x_status (execute weather_env ''read'' [] standup (read_plan (Some ''all''))) = success"
proof -
  have g: "agent (read_plan t) = ''notes_read''" for t
    by (simp add: notes_scn plan_of_def)
  have k: "''garden'' \<notin> set object_prototype_keys"
    by (simp add: object_prototype_keys_def)
  show ?thesis
    using notes_read_handler [OF g, of weather_env "''read''" two_topics standup "Some ''ALL''"]
      notes_read_handler [OF g, of weather_env "''read''" two_topics standup None]
      notes_read_handler [OF g, of weather_env "''read''" two_topics standup "Some ''Home''"]
      notes_read_handler [OF g, of weather_env "''read''" two_topics standup "Some ''Work''"]
      notes_read_handler [OF g, of weather_env "''read''" two_topics standup "Some ''garden''"]
      notes_read_handler [OF g, of weather_env "''read''" "[]" standup "Some ''all''"] k
    by (simp add: Let_def notes_scn plan_of_def two_topics_def string_defs)
qed

text \<open>
  The claim as it was stated fails on the empty store: reading \<^verbatim>\<open>"all"\<close> does not return
  the (empty) concatenation.
\<close>

theorem notes_read_all_counterexample:
  "x_result (execute weather_env ''read my notes'' [] initial_meeting (read_plan (Some ''all'')))
     \<noteq> RNotes (concat (map snd ([] :: NoteStore)))"
  by (simp add: notes_scn plan_of_def string_defs execute_def exec_notes_read_def exec_start_def
      Let_def)

text \<open>
  The topic the amended claim leaves out: the store has no topic \<^verbatim>\<open>constructor\<close>, and the
  read finds the inherited member, not an empty sequence.
\<close>

lemma notes_read_inherited_topic:
  "x_result (execute weather_env ''read'' two_topics standup (read_plan (Some ''Constructor''))) =
     RInherited ''constructor''"
  by (simp add: notes_scn plan_of_def two_topics_def string_defs execute_def exec_notes_read_def
      exec_start_def get_prop_def object_prototype_keys_def Let_def)

subsection \<open>Adding a note\<close>

text \<open>
  What \<^verbatim>\<open>notes_add\<close> does for every topic but the two inherited names. Let \<open>t\<close> be the
  lower-cased topic, \<^verbatim>\<open>"general"\<close> when the topic is missing or empty, and let the store
  have the topic \<open>t\<close> or \<open>t\<close> not be the name of a member of \<^verbatim>\<open>Object.prototype\<close>. With a
  non-empty content the content is appended to the notes the store has for \<open>t\<close> (to the
  empty sequence when it has none), every other topic stays as it was, and the result
  reports success. With a missing or empty content, for every topic, the status is
  \<^verbatim>\<open>error\<close> with the message \<^verbatim>\<open>"No content provided for the note."\<close> and the store is
  unchanged.
\<close>

lemma notes_add_stores:
  assumes "agent plan = ''notes_add''"
  shows "let x = execute env query ns m plan;
             t = toLowerCase (or_else (info_topic (info plan)) ''general'');
             old = (case map_of ns t of None \<Rightarrow> [] | Some l \<Rightarrow> l)
         in (\<forall>c. content (info plan) = Some c \<and> c \<noteq> [] \<and>
                 (map_of ns t \<noteq> None \<or> t \<notin> set object_prototype_keys) \<longrightarrow>
               x_notes x = set_prop t (old @ [c]) ns \<and>
               map_of (x_notes x) t = Some (old @ [c]) \<and>
               (\<forall>k. k \<noteq> t \<longrightarrow> map_of (x_notes x) k = map_of ns k) \<and>
               x_result x = RText (''Added note to '' @ [CHR 0x22] @ t @ [CHR 0x22] @ ''.'') \<and>
               x_status x = success \<and> x_thrown x = None \<and> \<not> x_updater_threw x) \<and>
            (\<not> truthy (content (info plan)) \<longrightarrow>
               x_notes x = ns \<and> x_meeting x = m \<and>
               x_result x = RText ''No content provided for the note.'' \<and>
               x_status x = error \<and> x_thrown x = None \<and> \<not> x_updater_threw x)"
  using assms
  by (simp add: execute_def exec_notes_add_def exec_start_def Let_def)
     (auto simp: truthy_def or_else_def add_note_def get_prop_def map_of_set_prop
        split: option.splits)

text \<open>
  \<^verbatim>\<open>"Add note: Buy milk"\<close> with no topic on the empty store, a note for a topic that has
  two notes, and a note without content.
\<close>

lemma notes_add_examples:
  "x_notes (execute weather_env ''Add note: Buy milk'' [] initial_meeting milk_plan) =
     [(''general'', [''Buy milk''])] \<and>
   x_result (execute weather_env ''Add note: Buy milk'' [] initial_meeting milk_plan) =
     RText (''Added note to '' @ [CHR 0x22] @ ''general'' @ [CHR 0x22] @ ''.'') \<and>
   x_status (execute weather_env ''Add note: Buy milk'' [] initial_meeting milk_plan) = success \<and>
   x_notes (execute weather_env ''note'' two_topics initial_meeting work_plan) =
     [(''work'', [''ship it'', ''review'', ''deploy'']), (''home'', [''buy milk''])] \<and>
   x_notes (execute weather_env ''note'' two_topics initial_meeting empty_note_plan) = two_topics \<and>
   x_status (execute weather_env ''note'' two_topics initial_meeting empty_note_plan) = error"
  by (simp add: notes_scn scenario_defs string_defs execute_def exec_notes_add_def exec_start_def
      add_note_def get_prop_def object_prototype_keys_def set_prop_def create_prop_def
      array_index_def is_digit_def Let_def)

text \<open>
  Claim C7 (a note with content is appended to the note sequence of its lower-cased topic)
  fails on the code for the topic \<^verbatim>\<open>Constructor\<close>, with a content, on a store that has
  no such topic: the handler reports \<^verbatim>\<open>Added note to "constructor".\<close> with status
  \<^verbatim>\<open>success\<close>, but the updater it handed to \<^verbatim>\<open>setNotes\<close> throws, and the store is what it
  was: the content is appended nowhere. The same in a whole run of \<^verbatim>\<open>handleRun\<close>.
\<close>

theorem notes_add_inherited_topic:
  "content (info constructor_plan) = Some ''check types'' \<and>
   map_of two_topics ''constructor'' = None \<and>
   x_notes (execute constructor_env ''note it'' two_topics initial_meeting constructor_plan) =
     two_topics \<and>
   x_updater_threw (execute constructor_env ''note it'' two_topics initial_meeting constructor_plan) \<and>
   x_status (execute constructor_env ''note it'' two_topics initial_meeting constructor_plan) =
     success \<and>
   x_result (execute constructor_env ''note it'' two_topics initial_meeting constructor_plan) =
     RText (''Added note to '' @ [CHR 0x22] @ ''constructor'' @ [CHR 0x22] @ ''.'') \<and>
   note_store (r_state (handleRun constructor_env (Some ''note it'') standup_state)) =
     note_store standup_state \<and>
   r_updater_threw (handleRun constructor_env (Some ''note it'') standup_state) \<and>
   map status (history (r_state (handleRun constructor_env (Some ''note it'') standup_state))) =
     [success]"
  by (simp add: notes_scn scenario_defs string_defs run_defs exec_notes_add_def add_note_def
      get_prop_def object_prototype_keys_def)

subsection \<open>Clearing notes\<close>

text \<open>
  Claim C8. With a non-empty topic, \<^verbatim>\<open>notes_clear\<close> removes exactly the entry of the
  lower-cased topic: the other entries stay, in their order and with their notes in order.
  With a missing or empty topic it empties the store. Both report success.
\<close>

theorem notes_clear_handler:
  assumes "agent plan = ''notes_clear''"
  shows "let x = execute env query ns m plan;
             t = toLowerCase (or_else (info_topic (info plan)) [])
         in (truthy (info_topic (info plan)) \<longrightarrow>
               x_notes x = filter (\<lambda>p. fst p \<noteq> t) ns \<and>
               map_of (x_notes x) t = None \<and>
               (\<forall>k. k \<noteq> t \<longrightarrow> map_of (x_notes x) k = map_of ns k)) \<and>
            (\<not> truthy (info_topic (info plan)) \<longrightarrow> x_notes x = []) \<and>
            x_status x = success \<and> x_thrown x = None \<and> x_meeting x = m"
  using assms
  by (simp add: execute_def exec_notes_clear_def exec_start_def Let_def map_of_delete_prop
      toLowerCase_Nil_iff truthy_or_else)
     (simp add: delete_prop_def)

text \<open>Clearing one of two topics, a topic the store does not have, and everything.\<close>

theorem notes_clear_handler_witness:
  "x_notes (execute weather_env ''clear'' two_topics standup (clear_plan (Some ''Work''))) =
     [(''home'', [''buy milk''])] \<and>
   x_notes (execute weather_env ''clear'' two_topics standup (clear_plan (Some ''garden''))) =
     two_topics \<and>
   x_notes (execute weather_env ''clear'' two_topics standup (clear_plan None)) = [] \<and>
   x_status (execute weather_env ''clear'' two_topics standup (clear_plan None)) = success"
proof -
  have g: "agent (clear_plan t) = ''notes_clear''" for t
    by (simp add: notes_scn plan_of_def)
  show ?thesis
    using notes_clear_handler [OF g, of weather_env "''clear''" two_topics standup "Some ''Work''"]
      notes_clear_handler [OF g, of weather_env "''clear''" two_topics standup "Some ''garden''"]
      notes_clear_handler [OF g, of weather_env "''clear''" two_topics standup None]
    by (simp add: Let_def notes_scn plan_of_def two_topics_def string_defs)
qed

subsection \<open>Rounding to doubles\<close>

lemma find_exp_ge: "e \<le> find_exp n e x"
proof (induction n arbitrary: e)
  case 0
  then show ?case by simp
next
  case (Suc n)
  from Suc [of "e + 1"] show ?case by simp
qed

lemma find_exp_le: "find_exp n e x \<le> e + int n"
proof (induction n arbitrary: e)
  case 0
  then show ?case by simp
next
  case (Suc n)
  from Suc [of "e + 1"] show ?case by simp
qed

lemma find_exp_upper: "find_exp n e x < e + int n \<Longrightarrow> x < 2 powi (find_exp n e x + 53)"
  by (induction n arbitrary: e) (auto split: if_splits)

lemma find_exp_lower: "e < find_exp n e x \<Longrightarrow> 2 powi (find_exp n e x + 52) \<le> x"
proof (induction n arbitrary: e)
  case 0
  then show ?case by simp
next
  case (Suc n)
  show ?case
  proof (cases "x < 2 powi (e + 53)")
    case True
    with Suc.prems show ?thesis by simp
  next
    case False
    show ?thesis
    proof (cases "find_exp n (e + 1) x = e + 1")
      case True
      with False show ?thesis by (simp add: add.commute add.left_commute)
    next
      case f: False
      then have "e + 1 < find_exp n (e + 1) x"
        using find_exp_ge [of "e + 1" n x] by linarith
      from Suc.IH [OF this] False show ?thesis by simp
    qed
  qed
qed

lemma find_exp_mono: "x \<le> y \<Longrightarrow> find_exp n e x \<le> find_exp n e y"
proof (induction n arbitrary: e)
  case 0
  then show ?case by simp
next
  case (Suc n)
  then show ?case
    using find_exp_ge [of "e + 1" n y] by auto
qed

lemma find_exp_eqI:
  assumes "e0 \<le> e" and "e \<le> e0 + int n"
    and "e0 < e \<Longrightarrow> 2 powi (e + 52) \<le> x" and "x < 2 powi (e + 53)"
  shows "find_exp n e0 x = e"
  using assms
proof (induction n arbitrary: e0)
  case 0
  then show ?case by simp
next
  case (Suc n)
  show ?case
  proof (cases "x < 2 powi (e0 + 53)")
    case True
    have "e = e0"
    proof (rule ccontr)
      assume "e \<noteq> e0"
      with Suc.prems have lt: "e0 < e" by simp
      then have "(2::real) powi (e0 + 53) \<le> 2 powi (e + 52)"
        by (intro power_int_increasing) auto
      with Suc.prems(3) [OF lt] True show False by simp
    qed
    with True show ?thesis by simp
  next
    case False
    then have "e \<noteq> e0" using Suc.prems(4) by auto
    with Suc.prems have "e0 + 1 \<le> e" "e \<le> e0 + 1 + int n" by simp_all
    from Suc.IH [OF this] Suc.prems(3,4) False show ?thesis by simp
  qed
qed

lemma round_even_bounds: "\<lfloor>y\<rfloor> \<le> round_even y" "round_even y \<le> \<lfloor>y\<rfloor> + 1"
  by (simp_all add: round_even_def Let_def)

lemma round_even_error: "\<bar>of_int (round_even y) - y\<bar> \<le> 1 / 2"
  unfolding round_even_def Let_def by (auto simp: abs_if) linarith+

lemma round_even_of_int [simp]: "round_even (of_int k) = k"
  by (simp add: round_even_def)

lemma round_even_mono:
  assumes "y \<le> z"
  shows "round_even y \<le> round_even z"
proof -
  consider "\<lfloor>y\<rfloor> < \<lfloor>z\<rfloor>" | "\<lfloor>y\<rfloor> = \<lfloor>z\<rfloor>"
    using floor_mono [OF assms] by linarith
  then show ?thesis
  proof cases
    case 1
    then show ?thesis
      using round_even_bounds(2) [of y] round_even_bounds(1) [of z] by linarith
  next
    case 2
    with assms show ?thesis
      by (auto simp: round_even_def Let_def)
  qed
qed


lemma double_exp_range: "- 1074 \<le> double_exp x" "double_exp x \<le> 971"
  using find_exp_ge [of "- 1074" 2045 "\<bar>x\<bar>"] find_exp_le [of 2045 "- 1074" "\<bar>x\<bar>"]
  by (simp_all add: double_exp_def)

lemma double_exp_upper: "double_exp x < 971 \<Longrightarrow> \<bar>x\<bar> < 2 powi (double_exp x + 53)"
  using find_exp_upper [of 2045 "- 1074" "\<bar>x\<bar>"] by (simp add: double_exp_def)

lemma double_exp_lower: "- 1074 < double_exp x \<Longrightarrow> 2 powi (double_exp x + 52) \<le> \<bar>x\<bar>"
  using find_exp_lower [of "- 1074" 2045 "\<bar>x\<bar>"] by (simp add: double_exp_def)

lemma double_exp_mono: "\<bar>x\<bar> \<le> \<bar>y\<bar> \<Longrightarrow> double_exp x \<le> double_exp y"
  by (simp add: double_exp_def find_exp_mono)

lemma double_exp_eqI:
  assumes "- 1074 \<le> e" and "e \<le> 971"
    and "- 1074 < e \<Longrightarrow> 2 powi (e + 52) \<le> \<bar>x\<bar>" and "\<bar>x\<bar> < 2 powi (e + 53)"
  shows "double_exp x = e"
  unfolding double_exp_def using assms by (intro find_exp_eqI) simp_all

lemma fl_eqI:
  assumes "- 1074 \<le> e" and "e \<le> 971"
    and "- 1074 < e \<Longrightarrow> 2 powi (e + 52) \<le> \<bar>x\<bar>" and "\<bar>x\<bar> < 2 powi (e + 53)"
  shows "fl x = of_int (round_even (x / 2 powi e)) * 2 powi e"
  using double_exp_eqI [OF assms] by (simp add: fl_def)

lemma pow2_pos: "0 < (2::real) powi e"
  by (simp add: zero_less_power_int)

lemma fl_mono:
  assumes "0 \<le> x" and "x \<le> y"
  shows "fl x \<le> fl y"
proof -
  let ?ex = "double_exp x" and ?ey = "double_exp y"
  have le: "?ex \<le> ?ey"
    using assms by (intro double_exp_mono) simp
  show ?thesis
  proof (cases "?ex = ?ey")
    case True
    have "x / 2 powi ?ey \<le> y / 2 powi ?ey"
      using assms(2) pow2_pos [of ?ey] by (simp add: divide_right_mono)
    then have "round_even (x / 2 powi ?ey) \<le> round_even (y / 2 powi ?ey)"
      by (rule round_even_mono)
    then have "(of_int (round_even (x / 2 powi ?ey)) :: real) \<le> of_int (round_even (y / 2 powi ?ey))"
      by simp
    then show ?thesis
      using pow2_pos [of ?ey] by (simp add: fl_def True mult_right_mono)
  next
    case False
    with le have lt: "?ex < ?ey" by simp
    with double_exp_range(2) [of y] have "?ex < 971" by simp
    from double_exp_upper [OF this] assms(1) have "x < 2 powi (?ex + 53)" by simp
    then have "x < 2 powi 53 * 2 powi ?ex"
      by (simp add: power_int_add mult.commute)
    then have "x / 2 powi ?ex \<le> of_int (2 ^ 53)"
      using pow2_pos [of ?ex] by (simp add: pos_divide_le_eq)
    then have "round_even (x / 2 powi ?ex) \<le> round_even (of_int (2 ^ 53))"
      by (rule round_even_mono)
    then have "(of_int (round_even (x / 2 powi ?ex)) :: real) \<le> 2 ^ 53"
      unfolding round_even_of_int by (metis of_int_le_iff of_int_numeral of_int_power)
    then have "fl x \<le> 2 ^ 53 * 2 powi ?ex"
      using pow2_pos [of ?ex] by (simp add: fl_def mult_right_mono)
    also have "\<dots> = 2 powi (?ex + 53)"
      by (simp add: power_int_add mult.commute)
    also have "\<dots> \<le> 2 powi (?ey + 52)"
      using lt by (intro power_int_increasing) auto
    finally have a: "fl x \<le> 2 powi (?ey + 52)" .
    from lt double_exp_range(1) [of x] have "- 1074 < ?ey" by simp
    from double_exp_lower [OF this] assms have "2 powi (?ey + 52) \<le> y" by simp
    then have "2 powi 52 * 2 powi ?ey \<le> y"
      by (simp add: power_int_add mult.commute)
    then have "of_int (2 ^ 52) \<le> y / 2 powi ?ey"
      using pow2_pos [of ?ey] by (simp add: pos_le_divide_eq)
    then have "round_even (of_int (2 ^ 52)) \<le> round_even (y / 2 powi ?ey)"
      by (rule round_even_mono)
    then have "(2 ^ 52 :: real) \<le> of_int (round_even (y / 2 powi ?ey))"
      unfolding round_even_of_int by (metis of_int_le_iff of_int_numeral of_int_power)
    then have "2 ^ 52 * 2 powi ?ey \<le> fl y"
      using pow2_pos [of ?ey] by (simp add: fl_def mult_right_mono)
    moreover have "(2 ^ 52 :: real) * 2 powi ?ey = 2 powi (?ey + 52)"
      by (simp add: power_int_add mult.commute)
    ultimately show ?thesis using a by simp
  qed
qed

lemma fl_rel_error:
  assumes "2 powi (- 1022) \<le> \<bar>x\<bar>"
  shows "\<bar>fl x - x\<bar> \<le> 2 powi (- 53) * \<bar>x\<bar>"
proof -
  let ?e = "double_exp x"
  let ?q = "x / 2 powi ?e"
  have "fl x - x = (of_int (round_even ?q) - ?q) * 2 powi ?e"
    using pow2_pos [of ?e] by (simp add: fl_def algebra_simps)
  then have "\<bar>fl x - x\<bar> = \<bar>of_int (round_even ?q) - ?q\<bar> * 2 powi ?e"
    using pow2_pos [of ?e] by (simp add: abs_mult)
  also have "\<dots> \<le> 1 / 2 * 2 powi ?e"
    using round_even_error [of ?q] pow2_pos [of ?e] by (intro mult_right_mono) simp_all
  also have "\<dots> = 2 powi (?e - 1)"
    by (simp add: power_int_diff)
  also have "\<dots> \<le> 2 powi (- 53) * \<bar>x\<bar>"
  proof (cases "- 1074 < ?e")
    case True
    have "(2::real) powi (?e - 1) = 2 powi (- 53) * 2 powi (?e + 52)"
      using power_int_add [of "2::real" "- 53" "?e + 52"] by simp
    also have "\<dots> \<le> 2 powi (- 53) * \<bar>x\<bar>"
      using double_exp_lower [OF True] by (intro mult_left_mono) simp_all
    finally show ?thesis .
  next
    case False
    with double_exp_range(1) [of x] have e: "?e = - 1074" by simp
    have "(2::real) powi (?e - 1) = 2 powi (- 53) * 2 powi (- 1022)"
      unfolding e using power_int_add [of "2::real" "- 53" "- 1022"] by simp
    also have "\<dots> \<le> 2 powi (- 53) * \<bar>x\<bar>"
      using assms by (intro mult_left_mono) simp_all
    finally show ?thesis .
  qed
  finally show ?thesis .
qed


lemma fl_zero [simp]: "fl 0 = 0"
  by (simp add: fl_def round_even_def)

lemma fl_nonneg: "0 \<le> x \<Longrightarrow> 0 \<le> fl x"
  using fl_mono [of 0 x] by simp

lemma fl_bounds:
  assumes "2 powi (- 1022) \<le> x"
  shows "(1 - 2 powi (- 53)) * x \<le> fl x" and "fl x \<le> (1 + 2 powi (- 53)) * x"
proof -
  have "0 < x"
    using assms pow2_pos [of "- 1022"] by linarith
  with fl_rel_error [of x] assms have "\<bar>fl x - x\<bar> \<le> 2 powi (- 53) * x"
    by simp
  then have "fl x - x \<le> 2 powi (- 53) * x" and "x - fl x \<le> 2 powi (- 53) * x"
    by linarith+
  then show "(1 - 2 powi (- 53)) * x \<le> fl x" and "fl x \<le> (1 + 2 powi (- 53)) * x"
    by (simp_all add: algebra_simps)
qed

lemma raw_height_mono:
  assumes "0 \<le> a" and "a \<le> b" and "0 < M"
  shows "fl (fl (fl (a / 255) * M) * 3.5) \<le> fl (fl (fl (b / 255) * M) * 3.5)"
proof -
  have 1: "fl (a / 255) \<le> fl (b / 255)" and n1: "0 \<le> fl (a / 255)"
    using assms by (simp_all add: fl_mono fl_nonneg divide_right_mono)
  then have 2: "fl (fl (a / 255) * M) \<le> fl (fl (b / 255) * M)"
    and n2: "0 \<le> fl (fl (a / 255) * M)"
    using assms(3) by (simp_all add: fl_mono fl_nonneg mult_right_mono)
  then show ?thesis
    by (simp add: fl_mono)
qed

lemma raw_height_error:
  assumes M: "M = 14 \<or> M = 24" and lo: "2 \<le> M * 3.5 / 255 * a"
  shows "\<bar>fl (fl (fl (a / 255) * M) * 3.5) - M * 3.5 / 255 * a\<bar> \<le> 2 powi (- 51) * (M * 3.5 / 255 * a)"
proof -
  define v1 where "v1 = fl (a / 255)"
  define v2 where "v2 = fl (v1 * M)"
  define v3 where "v3 = fl (v2 * 3.5)"
  have small: "(2::real) powi (- 1022) \<le> 1 / 1000"
    by simp
  have p: "1 / 1000 \<le> a / 255"
    using M lo by auto
  have b1: "(1 - 2 powi (- 53)) * (a / 255) \<le> v1" "v1 \<le> (1 + 2 powi (- 53)) * (a / 255)"
    unfolding v1_def using p small by (intro fl_bounds; linarith)+
  have q: "1 / 1000 \<le> v1 * M"
    using M b1(1) p by auto
  have b2: "(1 - 2 powi (- 53)) * (v1 * M) \<le> v2" "v2 \<le> (1 + 2 powi (- 53)) * (v1 * M)"
    unfolding v2_def using q small by (intro fl_bounds; linarith)+
  have r: "1 / 1000 \<le> v2 * 3.5"
    using b2(1) q by simp
  have b3: "(1 - 2 powi (- 53)) * (v2 * 3.5) \<le> v3" "v3 \<le> (1 + 2 powi (- 53)) * (v2 * 3.5)"
    unfolding v3_def using r small by (intro fl_bounds; linarith)+
  have "v3 - M * 3.5 / 255 * a \<le> 2 powi (- 51) * (M * 3.5 / 255 * a)"
    and "M * 3.5 / 255 * a - v3 \<le> 2 powi (- 51) * (M * 3.5 / 255 * a)"
    using M b1 b2 b3 lo by auto
  then have "\<bar>v3 - M * 3.5 / 255 * a\<bar> \<le> 2 powi (- 51) * (M * 3.5 / 255 * a)"
    by linarith
  then show ?thesis
    by (simp add: v1_def v2_def v3_def)
qed


text \<open>The computation at the averages 51, 17, 255 and 63.75, operation by operation.\<close>

lemma fl_at_51:
  "fl (51 / 255) = 7205759403792794 / 2 ^ 55"
  "fl (7205759403792794 / 2 ^ 55 * 24) = 5404319552844596 / 2 ^ 50"
  "fl (5404319552844596 / 2 ^ 50 * 3.5) = 4728779608739022 / 2 ^ 48"
  using fl_eqI [of "- 55" "51 / 255"] fl_eqI [of "- 50" "7205759403792794 / 2 ^ 55 * 24"]
    fl_eqI [of "- 48" "5404319552844596 / 2 ^ 50 * 3.5"]
  by (simp_all add: round_even_def)

lemma fl_at_17:
  "fl (17 / 255) = 4803839602528529 / 2 ^ 56"
  "fl (4803839602528529 / 2 ^ 56 * 24) = 7205759403792794 / 2 ^ 52"
  "fl (7205759403792794 / 2 ^ 52 * 3.5) = 6305039478318695 / 2 ^ 50"
  using fl_eqI [of "- 56" "17 / 255"] fl_eqI [of "- 52" "4803839602528529 / 2 ^ 56 * 24"]
    fl_eqI [of "- 50" "7205759403792794 / 2 ^ 52 * 3.5"]
  by (simp_all add: round_even_def)

lemma fl_at_255:
  "fl (255 / 255) = 1" "fl (1 * 24) = 24" "fl (24 * 3.5) = 84"
  using fl_eqI [of "- 52" "255 / 255"] fl_eqI [of "- 48" "1 * 24"] fl_eqI [of "- 46" "24 * 3.5"]
  by (simp_all add: round_even_def)

lemma fl_at_quarter:
  "fl (255 / 4 / 255) = 1 / 4" "fl (1 / 4 * 14) = 7 / 2" "fl (7 / 2 * 3.5) = 49 / 4"
  using fl_eqI [of "- 54" "255 / 4 / 255"] fl_eqI [of "- 51" "1 / 4 * 14"]
    fl_eqI [of "- 49" "7 / 2 * 3.5"]
  by (simp_all add: round_even_def)

text \<open>The double nearest to gain times average at the average 51.\<close>

lemma fl_gain_51: "fl (24 * 3.5 / 255 * 51) = 4728779608739021 / 2 ^ 48"
  using fl_eqI [of "- 48" "24 * 3.5 / 255 * 51"] by (simp add: round_even_def)

lemma mouth_height_51: "mouth_height False 51 = 4728779608739022 / 2 ^ 48"
  unfolding mouth_height_def Let_def by (simp only: if_False fl_at_51; simp)

lemma mouth_height_17: "mouth_height False 17 = 6305039478318695 / 2 ^ 50"
  unfolding mouth_height_def Let_def by (simp only: if_False fl_at_17; simp)

lemma mouth_height_255: "mouth_height False 255 = 24"
  unfolding mouth_height_def Let_def by (simp only: if_False fl_at_255; simp)

lemma mouth_height_quarter: "mouth_height True (255 / 4) = 49 / 4"
  unfolding mouth_height_def Let_def by (simp only: if_True fl_at_quarter; simp)

subsection \<open>The mouth of the avatar\<close>

text \<open>
  Claim C9, as amended. For an average amplitude between 0 and 255 the mouth height is at
  least 2 and at most the ceiling (24, or 14 in small mode), and it does not decrease when
  the average grows. Between the bounds the map is linear with the fixed gain
  \<open>maxHeight * 3.5 / 255\<close> up to the rounding of the three operations on doubles: the height
  differs from gain times average by at most \<open>2 ^ - 51\<close> times that product. It is not
  exactly linear.
\<close>

theorem mouth_height_clamp:
  assumes "0 \<le> a" and "a \<le> b" and "b \<le> 255"
  shows "let maxHeight = (if small then 14 else 24 :: real);
             gain = maxHeight * 3.5 / 255
         in 2 \<le> mouth_height small a \<and> mouth_height small a \<le> maxHeight \<and>
            mouth_height small a \<le> mouth_height small b \<and>
            (2 \<le> gain * a \<and> gain * a \<le> maxHeight \<longrightarrow>
               \<bar>mouth_height small a - gain * a\<bar> \<le> 2 powi (- 51) * (gain * a))"
proof -
  define M :: real where "M = (if small then 14 else 24)"
  have M: "M = 14 \<or> M = 24" "0 < M" "2 \<le> M"
    by (auto simp: M_def)
  let ?v = "\<lambda>a. fl (fl (fl (a / 255) * M) * 3.5)"
  have h: "mouth_height small a = max 2 (min M (?v a))" for a
    by (simp add: mouth_height_def M_def Let_def)
  have bounds: "2 \<le> mouth_height small a" "mouth_height small a \<le> M"
    using M(3) by (simp_all add: h)
  have "?v a \<le> ?v b"
    using assms(1,2) M(2) by (rule raw_height_mono)
  then have mono: "mouth_height small a \<le> mouth_height small b"
    unfolding h by (simp add: max_def min_def)
  have lin: "\<bar>mouth_height small a - M * 3.5 / 255 * a\<bar> \<le> 2 powi (- 51) * (M * 3.5 / 255 * a)"
    if "2 \<le> M * 3.5 / 255 * a" and "M * 3.5 / 255 * a \<le> M"
  proof -
    define t where "t = M * 3.5 / 255 * a"
    define v where "v = fl (fl (fl (a / 255) * M) * 3.5)"
    define c where "c = 2 powi (- 51) * t"
    have "\<bar>v - t\<bar> \<le> c"
      using raw_height_error [OF M(1) that(1)] unfolding t_def v_def c_def .
    moreover have "2 \<le> t" "t \<le> M"
      using that unfolding t_def by blast+
    ultimately have "\<bar>max 2 (min M v) - t\<bar> \<le> c"
      using M(3) unfolding max_def min_def by (auto; linarith)
    then show ?thesis
      unfolding h v_def t_def c_def .
  qed
  show ?thesis
    using bounds mono lin unfolding Let_def M_def [symmetric] by blast
qed



text \<open>
  The averages 51 and 255 in full size, and 63.75 in small mode, where no operation rounds
  and the height is gain times average.
\<close>

theorem mouth_height_clamp_witness:
  "(0::real) \<le> 51 \<and> (51::real) \<le> 255 \<and> (255::real) \<le> 255 \<and>
   mouth_height False 51 = 4728779608739022 / 2 ^ 48 \<and>
   mouth_height False 255 = 24 \<and>
   mouth_height False 51 \<le> mouth_height False 255 \<and>
   \<bar>mouth_height False 51 - 24 * 3.5 / 255 * 51\<bar> \<le> 2 powi (- 51) * (24 * 3.5 / 255 * 51) \<and>
   mouth_height True (255 / 4) = 14 * 3.5 / 255 * (255 / 4)"
proof -
  have h: "(0::real) \<le> 51" "(51::real) \<le> 255" "(255::real) \<le> 255"
    by simp_all
  have b: "(2::real) \<le> 24 * 3.5 / 255 * 51" "(24::real) * 3.5 / 255 * 51 \<le> 24"
    by simp_all
  have q: "mouth_height True (255 / 4) = 14 * 3.5 / 255 * (255 / 4)"
    unfolding mouth_height_quarter by simp
  from mouth_height_clamp [OF h, of False] b
  have "mouth_height False 51 \<le> mouth_height False 255"
    and "\<bar>mouth_height False 51 - 24 * 3.5 / 255 * 51\<bar> \<le> 2 powi (- 51) * (24 * 3.5 / 255 * 51)"
    unfolding Let_def if_False by blast+
  with h q mouth_height_51 mouth_height_255 show ?thesis
    by blast
qed

text \<open>
  The claim as it was stated fails between the bounds. At the average 51 the height is
  16.800000000000004: it is not gain times average, 16.8, and not the double nearest to
  that either. No other gain fits, since the heights at 17 and at 51 are not in the ratio
  17 to 51.
\<close>

theorem mouth_height_linear_counterexample:
  "(2::real) \<le> 24 * 3.5 / 255 * 17 \<and> (24::real) * 3.5 / 255 * 51 \<le> 24 \<and>
   mouth_height False 51 = 4728779608739022 / 2 ^ 48 \<and>
   mouth_height False 51 \<noteq> 24 * 3.5 / 255 * 51 \<and>
   mouth_height False 51 \<noteq> fl (24 * 3.5 / 255 * 51) \<and>
   mouth_height False 51 * 17 \<noteq> mouth_height False 17 * 51"
  unfolding fl_gain_51 by (simp add: mouth_height_51 mouth_height_17)

subsection \<open>An ad-hoc meeting does not listen\<close>

text \<open>
  Claim C10, as amended. When the meeting \<^verbatim>\<open>add\<close> handler finds no active session, the
  session it creates is active with listening false, so creating it does not start the speech
  recognition, while the meeting \<^verbatim>\<open>start\<close> handler creates its session with listening
  true, which starts it. The ad-hoc session starts the recognition later, when the listener
  toggle is clicked.
\<close>

theorem adhoc_meeting_not_listening:
  assumes "agent plan = ''meeting''"
  shows "let x = execute env query ns m plan
         in (meetingAction (info plan) = Some ''add'' \<and> \<not> active m \<longrightarrow>
               active (x_meeting x) \<and> \<not> listening (x_meeting x) \<and>
               \<not> recognition_runs (x_meeting x) \<and>
               mlog (x_meeting x) = [or_else (content (info plan)) query] \<and>
               recognition_runs (toggleMeetingListener (x_meeting x))) \<and>
            (meetingAction (info plan) = Some ''start'' \<longrightarrow>
               active (x_meeting x) \<and> listening (x_meeting x) \<and>
               recognition_runs (x_meeting x))"
  using assms
  by (simp add: execute_def exec_meeting_def exec_meeting_add_def exec_meeting_start_def
      exec_start_def recognition_runs_def toggleMeetingListener_def Let_def)

text \<open>An entry added with no meeting in progress, and a meeting started.\<close>

theorem adhoc_meeting_not_listening_witness:
  "\<not> active initial_meeting \<and>
   x_meeting (execute add_env ''log this'' [] initial_meeting add_plan) =
     \<lparr>active = True, topic = ''Ad-hoc Discussion'', mlog = [''budget approved''],
      listening = False\<rparr> \<and>
   \<not> recognition_runs (x_meeting (execute add_env ''log this'' [] initial_meeting add_plan)) \<and>
   listening (x_meeting (execute start_env ''start'' [] initial_meeting start_plan)) \<and>
   recognition_runs (x_meeting (execute start_env ''start'' [] initial_meeting start_plan))"
proof -
  have g: "agent add_plan = ''meeting''" "agent start_plan = ''meeting''"
    by (simp_all add: event_defs plan_of_def)
  have a: "meetingAction (info add_plan) = Some ''add''"
    "meetingAction (info start_plan) = Some ''start''" "\<not> active initial_meeting"
    by (simp_all add: event_defs plan_of_def initial_meeting_def)
  have m: "x_meeting (execute add_env ''log this'' [] initial_meeting add_plan) =
     \<lparr>active = True, topic = ''Ad-hoc Discussion'', mlog = [''budget approved''],
      listening = False\<rparr>"
    by (simp add: event_defs plan_of_def initial_meeting_def execute_def exec_meeting_def
        exec_meeting_add_def exec_start_def or_else_def Let_def)
  show ?thesis
    using adhoc_meeting_not_listening [OF g(1), of add_env "''log this''" "[]" initial_meeting]
      adhoc_meeting_not_listening [OF g(2), of start_env "''start''" "[]" initial_meeting] a m
    by (simp add: Let_def event_defs plan_of_def or_else_def)
qed

text \<open>
  The claim as it was stated fails once the listener is resumed: the session was created
  by the \<^verbatim>\<open>add\<close> handler, and the speech recognition runs.
\<close>

theorem adhoc_meeting_listens_counterexample:
  "map_option meeting (run_events initial_state adhoc_events) = Some adhoc_resumed \<and>
   topic adhoc_resumed = ''Ad-hoc Discussion'' \<and>
   recognition_runs adhoc_resumed"
  by (simp add: scenario_defs event_defs string_defs run_defs exec_meeting_def
      exec_meeting_add_def recognition_runs_def)

end
